theory Spec2Isabelle
  imports Main "HOL-Library.Word"
begin

unbundle bit_operations_syntax

section \<open>Values of the host language\<close>

text \<open>
  A JavaScript string is a \<^typ>\<open>string\<close>; a string is truthy exactly when it is not
  empty. \<open>process.env\<close> is a map from names to strings, and \<open>a || b\<close> on a possibly
  undefined string picks \<open>b\<close> when \<open>a\<close> is undefined or empty.
\<close>

definition truthy :: "string \<Rightarrow> bool" where
  "truthy s = (s \<noteq> [])"

definition or_default :: "string option \<Rightarrow> string \<Rightarrow> string" where
  "or_default v d = (case v of None \<Rightarrow> d | Some s \<Rightarrow> if truthy s then s else d)"

definition startsWith :: "string \<Rightarrow> string \<Rightarrow> bool" where
  "startsWith s p = (take (length p) s = p)"

text \<open>
  The numbers the program handles are the results of \<open>parseInt\<close>: an integer or \<open>NaN\<close>.
\<close>

datatype jsnum = NaN | Fin int

section \<open>The hash of the identifier\<close>

text \<open>
  \<open>crypto.createHash('md5').update(s).digest('hex')\<close> is a library function: it is taken
  as a parameter \<open>md5\<close> that yields the 128-bit digest; \<open>digest_hex\<close> writes the digest as
  32 lower-case hexadecimal characters, most significant nibble first.
\<close>

definition hexchar :: "nat \<Rightarrow> char" where
  "hexchar n = ''0123456789abcdef'' ! (n mod 16)"

definition digest_hex :: "128 word \<Rightarrow> string" where
  "digest_hex w = map (\<lambda>i. hexchar (unat (drop_bit (4 * (31 - i)) w AND 15))) [0..<32]"

section \<open>The proxy object\<close>

datatype signal = SIGINT | SIGTERM | SIGHUP | SIGQUIT | SIGKILL

text \<open>A spawned child: its command line, environment additions and the signals sent to it.\<close>

record child =
  command :: string
  args :: "string list"
  child_env :: "(string \<times> string) list"
  received :: "signal list"

record proxy =
  uuid :: string
  path :: string
  domain :: string
  port :: jsnum
  process :: "child option"
  xrayPath :: string
  name :: string

text \<open>
  The constructor (lines 25 to 41) without the installation of the signal handlers, which
  acts on the host process and is modelled with it below. \<open>wspath\<close> is the module constant
  \<open>WSPATH\<close>, \<open>randomUUID\<close> the value \<open>crypto.randomUUID()\<close> would return, \<open>dirname\<close> is
  \<open>__dirname\<close>, a directory other than the root, so that \<open>path.join\<close> only puts the
  separators in.
\<close>

definition derive_path :: "(string \<Rightarrow> 128 word) \<Rightarrow> string \<Rightarrow> string" where
  "derive_path md5 u = ''/'' @ take 8 (digest_hex (md5 u))"

definition XrayProxy ::
  "(string \<Rightarrow> 128 word) \<Rightarrow> string \<Rightarrow> string \<Rightarrow> string \<Rightarrow>
   string \<Rightarrow> string \<Rightarrow> jsnum \<Rightarrow> string \<Rightarrow> proxy" where
  "XrayProxy md5 randomUUID dirname wspath dmn user_uuid prt nm =
     (let u = (if truthy user_uuid then user_uuid else randomUUID) in
      \<lparr> uuid = u,
        path = (if truthy wspath
                then (if startsWith wspath ''/'' then wspath else ''/'' @ wspath)
                else derive_path md5 u),
        domain = dmn,
        port = prt,
        process = None,
        xrayPath = dirname @ ''/xray/xray'',
        name = nm \<rparr>)"

section \<open>The download address\<close>

definition getXrayDownloadUrl :: "string \<Rightarrow> string" where
  "getXrayDownloadUrl arch =
     (let a = (if arch = ''arm64'' then ''arm64-v8a'' else ''64'') in
      ''https://github.com/XTLS/Xray-core/releases/latest/download/Xray-linux-'' @ a @ ''.zip'')"

section \<open>Outcomes of asynchronous operations\<close>

text \<open>
  An asynchronous operation ends in one of four ways: its promise is fulfilled, its promise
  is rejected, its promise is never settled (no callback that would settle it is ever
  called), or an exception is thrown inside an event callback, outside every promise and
  every \<open>try\<close>, which the runtime reports as an uncaught exception.
\<close>

datatype 'a outcome = Fulfilled 'a | Rejected string | Pending | Uncaught string

definition try_catch :: "string + 'a \<Rightarrow> (string \<Rightarrow> string + 'a) \<Rightarrow> string + 'a" where
  "try_catch body handler = (case body of Inl e \<Rightarrow> handler e | Inr v \<Rightarrow> Inr v)"

fun forEach :: "('a \<Rightarrow> 's \<Rightarrow> string + 's) \<Rightarrow> 'a list \<Rightarrow> 's \<Rightarrow> string + 's" where
  "forEach f [] s = Inr s"
| "forEach f (x # xs) s = (case f x s of Inl e \<Rightarrow> Inl e | Inr s' \<Rightarrow> forEach f xs s')"

section \<open>The file system\<close>

text \<open>
  A file holds raw bytes or a zip archive, which is the list of its entries in the order
  \<open>yauzl\<close> reports them; an entry's stream can be opened (\<open>Data\<close>) or not
  (\<open>Unreadable\<close>, with the error). A path names a file with its permission bits, a
  directory, or nothing. \<open>undeletable\<close> holds the paths the process has no permission to
  unlink.
\<close>

datatype entry_data = Data string | Unreadable string

record entry =
  fileName :: string
  payload :: entry_data

datatype content = Raw string | Archive "entry list"

datatype node = File content nat | Dir

record filesystem =
  nodes :: "string \<Rightarrow> node option"
  undeletable :: "string set"

definition existsSync :: "filesystem \<Rightarrow> string \<Rightarrow> bool" where
  "existsSync fs p = (nodes fs p \<noteq> None)"

definition unlinkSync :: "string \<Rightarrow> filesystem \<Rightarrow> string + filesystem" where
  "unlinkSync p fs =
     (case nodes fs p of
        None \<Rightarrow> Inl ''ENOENT''
      | Some Dir \<Rightarrow> Inl ''EISDIR''
      | Some (File c m) \<Rightarrow>
          if p \<in> undeletable fs then Inl ''EACCES''
          else Inr (fs\<lparr>nodes := (nodes fs)(p := None)\<rparr>))"

text \<open>
  \<open>fs.mkdirSync\<close> without the check of the parent: the one directory the program makes
  is a child of its own directory \<open>__dirname\<close>, which exists while the program runs.
\<close>

definition mkdirSync :: "string \<Rightarrow> filesystem \<Rightarrow> string + filesystem" where
  "mkdirSync p fs =
     (case nodes fs p of
        Some n \<Rightarrow> Inl ''EEXIST''
      | None \<Rightarrow> Inr (fs\<lparr>nodes := (nodes fs)(p \<mapsto> Dir)\<rparr>))"

definition chmodSync :: "string \<Rightarrow> nat \<Rightarrow> filesystem \<Rightarrow> string + filesystem" where
  "chmodSync p m fs =
     (case nodes fs p of
        None \<Rightarrow> Inl ''ENOENT''
      | Some Dir \<Rightarrow> Inr fs
      | Some (File c m') \<Rightarrow> Inr (fs\<lparr>nodes := (nodes fs)(p \<mapsto> File c m)\<rparr>))"

text \<open>
  \<open>path.dirname\<close> for POSIX paths, as Node computes it: from the end of the path and not
  looking at its first character, trailing slashes are passed over, then the last
  segment; the slash found there ends the result. Without such a slash the result is the
  root for an absolute path and \<open>.\<close> for a relative one; a path whose only such slash is
  its second character and that starts with a slash gives \<open>//\<close>.
\<close>

definition path_dirname :: "string \<Rightarrow> string" where
  "path_dirname p =
     (case p of
        [] \<Rightarrow> ''.''
      | c # cs \<Rightarrow>
          (case dropWhile (\<lambda>x. x \<noteq> CHR ''/'') (dropWhile (\<lambda>x. x = CHR ''/'') (rev cs)) of
             [] \<Rightarrow> if c = CHR ''/'' then ''/'' else ''.''
           | s # before \<Rightarrow> if c = CHR ''/'' \<and> before = [] then ''//'' else c # rev before))"

text \<open>
  Writing a whole stream to a path (\<open>fs.createWriteStream\<close> and the piping of the data
  into it) fails when the path is a directory or when its parent is not one; the working
  directory \<open>.\<close> always is. A new file gets the default permission bits \<open>0o644\<close>, an
  existing one keeps its own.
\<close>

definition parent_is_dir :: "filesystem \<Rightarrow> string \<Rightarrow> bool" where
  "parent_is_dir fs p = (path_dirname p = ''.'' \<or> nodes fs (path_dirname p) = Some Dir)"

definition writeStream :: "string \<Rightarrow> content \<Rightarrow> filesystem \<Rightarrow> string + filesystem" where
  "writeStream p c fs =
     (if \<not> parent_is_dir fs p then Inl ''ENOENT''
      else case nodes fs p of
        Some Dir \<Rightarrow> Inl ''EISDIR''
      | Some (File c' m) \<Rightarrow> Inr (fs\<lparr>nodes := (nodes fs)(p \<mapsto> File c m)\<rparr>)
      | None \<Rightarrow> Inr (fs\<lparr>nodes := (nodes fs)(p \<mapsto> File c 420)\<rparr>))"

text \<open>\<open>fs.writeFileSync\<close> is the same write, done synchronously.\<close>

definition writeFileSync :: "string \<Rightarrow> string \<Rightarrow> filesystem \<Rightarrow> string + filesystem" where
  "writeFileSync p s fs = writeStream p (Raw s) fs"

section \<open>The host process and the supervisor's cleanup\<close>

text \<open>
  The host process: the proxy object, the file system, the signals for which
  \<open>cleanupAndExit\<close> is registered, and the exit status once the process has terminated.
  \<open>cleanup_runs\<close> counts the calls of \<open>cleanup\<close>; it is not a variable of the program.
\<close>

datatype exit_status = Code nat | Killed signal

record host =
  proxy :: proxy
  files :: filesystem
  handlers :: "signal list"
  exited :: "exit_status option"
  cleanup_runs :: nat

text \<open>
  \<open>child.kill\<close> records the signal with the child; on a child of the same user, running
  or ended, it raises nothing.
\<close>

definition kill :: "signal \<Rightarrow> child \<Rightarrow> child" where
  "kill sg c = c\<lparr>received := received c @ [sg]\<rparr>"

definition artifacts :: "string list" where
  "artifacts = [''xray.zip'', ''config.json'', ''vless_xray_links.txt'']"

text \<open>The body of the \<open>forEach\<close> of \<open>cleanup\<close> (line 206): the \<open>catch\<close> swallows the error.\<close>

definition cleanup_file :: "string \<Rightarrow> filesystem \<Rightarrow> string + filesystem" where
  "cleanup_file f fs =
     try_catch (if existsSync fs f then unlinkSync f fs else Inr fs) (\<lambda>e. Inr fs)"

definition cleanup :: "host \<Rightarrow> string + host" where
  "cleanup h =
     (let h1 = (case process (proxy h) of
                  None \<Rightarrow> h
                | Some c \<Rightarrow> h\<lparr>proxy := (proxy h)\<lparr>process := Some (kill SIGTERM c)\<rparr>\<rparr>)
      in case forEach cleanup_file artifacts (files h1) of
           Inl e \<Rightarrow> Inl e
         | Inr fs \<Rightarrow> Inr (h1\<lparr>files := fs, cleanup_runs := Suc (cleanup_runs h1)\<rparr>))"

text \<open>
  \<open>cleanupAndExit\<close> (lines 44 to 48): \<open>process.exit(0)\<close> follows the cleanup; an
  exception out of the cleanup would end the handler, and the process, with status 1.
\<close>

definition cleanupAndExit :: "host \<Rightarrow> host" where
  "cleanupAndExit h =
     (case cleanup h of
        Inl e \<Rightarrow> h\<lparr>exited := Some (Code 1)\<rparr>
      | Inr h' \<Rightarrow> h'\<lparr>exited := Some (Code 0)\<rparr>)"

definition setupSignalHandlers :: "host \<Rightarrow> host" where
  "setupSignalHandlers h = h\<lparr>handlers := handlers h @ [SIGINT, SIGTERM]\<rparr>"

text \<open>
  What ends the host process: a signal, or the event loop running out of work (the main
  function has returned or waits for a promise that nothing will settle, and no child
  keeps the loop alive). A signal with a registered handler runs the handler; any other
  signal kills the process. Nothing is registered for the exit of the process itself, so
  a drained event loop ends it with status 0 and runs no code of the program. A
  terminated process reacts to nothing.
\<close>

datatype event = Signal signal | Drained

definition deliver :: "event \<Rightarrow> host \<Rightarrow> host" where
  "deliver ev h =
     (if exited h \<noteq> None then h
      else case ev of
        Signal sg \<Rightarrow>
          if sg \<in> set (handlers h) then cleanupAndExit h
          else h\<lparr>exited := Some (Killed sg)\<rparr>
      | Drained \<Rightarrow> h\<lparr>exited := Some (Code 0)\<rparr>)"

fun deliver_all :: "event list \<Rightarrow> host \<Rightarrow> host" where
  "deliver_all [] h = h"
| "deliver_all (ev # evs) h = deliver_all evs (deliver ev h)"

text \<open>A path can be unlinked when it names a file the process may delete.\<close>

definition deletable :: "filesystem \<Rightarrow> string \<Rightarrow> bool" where
  "deletable fs p =
     (case nodes fs p of Some (File c m) \<Rightarrow> p \<notin> undeletable fs | Some Dir \<Rightarrow> False | None \<Rightarrow> False)"

section \<open>The download\<close>

text \<open>
  The network answers a request for an address with an error or with a response: its
  status code, its \<open>location\<close> header if it has one, and its body.
\<close>

datatype http_response = NetError string | Response nat "string option" content

definition is_redirect :: "nat \<Rightarrow> string option \<Rightarrow> bool" where
  "is_redirect statusCode location =
     (300 \<le> statusCode \<and> (case location of None \<Rightarrow> False | Some l \<Rightarrow> truthy l))"

text \<open>
  \<open>_downloadFile\<close> (lines 153 to 161). A request error rejects the promise. A redirect
  calls the function again with the new address and hands its result on. Otherwise the
  body is piped into the destination and the promise is fulfilled when the write has
  finished; an error of the write stream has no listener and is an uncaught exception.
  The recursion has no bound in the source, so the function is partial: \<open>None\<close> is a
  download that never ends.
\<close>

partial_function (option) downloadFile ::
  "(string \<Rightarrow> http_response) \<Rightarrow> string \<Rightarrow> string \<Rightarrow> filesystem
     \<Rightarrow> (unit outcome \<times> filesystem) option" where
  "downloadFile server url dest fs =
     (case server url of
        NetError e \<Rightarrow> Some (Rejected e, fs)
      | Response statusCode location body \<Rightarrow>
          if is_redirect statusCode location
          then downloadFile server (the location) dest fs
          else (case writeStream dest body fs of
                  Inl e \<Rightarrow> Some (Uncaught e, fs)
                | Inr fs' \<Rightarrow> Some (Fulfilled (), fs')))"

declare downloadFile.simps [code]

text \<open>
  The address a response redirects to, the address reached after following a number of
  redirects, and what the function does with a response that is not a redirect.
\<close>

definition redirect_of :: "(string \<Rightarrow> http_response) \<Rightarrow> string \<Rightarrow> string option" where
  "redirect_of server url =
     (case server url of
        NetError e \<Rightarrow> None
      | Response statusCode location body \<Rightarrow>
          if is_redirect statusCode location then location else None)"

fun redirected :: "(string \<Rightarrow> http_response) \<Rightarrow> nat \<Rightarrow> string \<Rightarrow> string option" where
  "redirected server 0 url = Some url"
| "redirected server (Suc n) url =
     (case redirect_of server url of
        None \<Rightarrow> None
      | Some l \<Rightarrow> redirected server n l)"

definition settle ::
  "(string \<Rightarrow> http_response) \<Rightarrow> string \<Rightarrow> string \<Rightarrow> filesystem
     \<Rightarrow> unit outcome \<times> filesystem" where
  "settle server url dest fs =
     (case server url of
        NetError e \<Rightarrow> (Rejected e, fs)
      | Response statusCode location body \<Rightarrow>
          (case writeStream dest body fs of
             Inl e \<Rightarrow> (Uncaught e, fs)
           | Inr fs' \<Rightarrow> (Fulfilled (), fs')))"

section \<open>The extraction\<close>

definition zipPath :: string where
  "zipPath = ''xray.zip''"

text \<open>\<open>yauzl.open\<close>: the entries of the archive at a path, or an error.\<close>

definition yauzl_open :: "string \<Rightarrow> filesystem \<Rightarrow> string + entry list" where
  "yauzl_open p fs =
     (case nodes fs p of
        None \<Rightarrow> Inl ''ENOENT''
      | Some Dir \<Rightarrow> Inl ''EISDIR''
      | Some (File (Raw s) m) \<Rightarrow> Inl ''end of central directory record signature not found''
      | Some (File (Archive es) m) \<Rightarrow> Inr es)"

text \<open>
  The callback of \<open>zipfile.openReadStream\<close> for the entry named \<open>xray\<close> (lines 132 to
  141). An error of the stream rejects the promise. \<open>mkdirSync\<close> runs in the callback
  itself, so its exception is uncaught. The write, \<open>chmodSync\<close> and \<open>unlinkSync\<close> run in
  the promise chain of \<open>pipeline\<close>, whose \<open>catch\<close> rejects the promise. The mode \<open>0o755\<close>
  is 493.
\<close>

definition on_xray_entry :: "proxy \<Rightarrow> entry \<Rightarrow> filesystem \<Rightarrow> bool outcome \<times> filesystem" where
  "on_xray_entry p e fs =
     (case payload e of
        Unreadable err \<Rightarrow> (Rejected err, fs)
      | Data d \<Rightarrow>
          (case (if \<not> existsSync fs (path_dirname (xrayPath p))
                 then mkdirSync (path_dirname (xrayPath p)) fs else Inr fs) of
             Inl err \<Rightarrow> (Uncaught err, fs)
           | Inr fs1 \<Rightarrow>
               (case writeStream (xrayPath p) (Raw d) fs1 of
                  Inl err \<Rightarrow> (Rejected err, fs1)
                | Inr fs2 \<Rightarrow>
                    (case chmodSync (xrayPath p) 493 fs2 of
                       Inl err \<Rightarrow> (Rejected err, fs2)
                     | Inr fs3 \<Rightarrow>
                         (case unlinkSync zipPath fs3 of
                            Inl err \<Rightarrow> (Rejected err, fs3)
                          | Inr fs4 \<Rightarrow> (Fulfilled True, fs4))))))"

text \<open>
  The \<open>entry\<close> listener with \<open>readEntry\<close> (lines 130 to 144): entries are read one at a
  time; an entry with another name asks for the next one; the entry named \<open>xray\<close> is
  extracted and no further entry is read. After the last entry the archive emits \<open>end\<close>,
  for which nothing is registered: the promise is then never settled. The archives of
  the model are well formed: every entry has a name and a header that \<open>yauzl\<close> accepts,
  so that it reports no \<open>error\<close> while it reads the entries.
\<close>

fun readEntry :: "proxy \<Rightarrow> entry list \<Rightarrow> filesystem \<Rightarrow> bool outcome \<times> filesystem" where
  "readEntry p [] fs = (Pending, fs)"
| "readEntry p (e # es) fs =
     (if fileName e = ''xray'' then on_xray_entry p e fs else readEntry p es fs)"

definition extractXray :: "proxy \<Rightarrow> filesystem \<Rightarrow> bool outcome \<times> filesystem" where
  "extractXray p fs =
     (case yauzl_open zipPath fs of
        Inl err \<Rightarrow> (Rejected err, fs)
      | Inr es \<Rightarrow> readEntry p es fs)"

text \<open>
  \<open>downloadAndExtract\<close> (lines 119 to 151), with \<open>os.arch()\<close> as the argument \<open>arch\<close>. The
  download is awaited inside the \<open>try\<close>: its rejection is caught and the function returns
  \<open>false\<close>. The promise of the extraction is returned without being awaited, so the
  function's own promise ends as that promise does: fulfilled with \<open>true\<close>, rejected, or
  never settled.
\<close>

definition downloadAndExtract ::
  "string \<Rightarrow> (string \<Rightarrow> http_response) \<Rightarrow> proxy \<Rightarrow> filesystem
     \<Rightarrow> (bool outcome \<times> filesystem) option" where
  "downloadAndExtract arch server p fs =
     (case downloadFile server (getXrayDownloadUrl arch) zipPath fs of
        None \<Rightarrow> None
      | Some (r, fs1) \<Rightarrow>
          (case r of
             Fulfilled u \<Rightarrow> Some (extractXray p fs1)
           | Rejected e \<Rightarrow> Some (Fulfilled False, fs1)
           | Pending \<Rightarrow> Some (Pending, fs1)
           | Uncaught e \<Rightarrow> Some (Uncaught e, fs1)))"

section \<open>JSON values, \<open>JSON.stringify\<close> and \<open>JSON.parse\<close>\<close>

text \<open>
  The values that \<open>JSON.parse\<close> returns and \<open>JSON.stringify\<close> prints. An object is the
  list of its properties in their order. Strings are lists of one-byte characters and
  numbers are integers or \<open>NaN\<close>: the functions below follow ECMA-262 on such values
  (an integer is printed with all its digits, as JavaScript does below \<open>10^21\<close>). A JSON
  text with a fraction, an exponent or a \<open>\u\<close> escape above \<open>00ff\<close> is outside the model,
  and the parser gives \<open>None\<close> for it as it does for a text that is not JSON.
\<close>

datatype json =
    JNull
  | JBool bool
  | JNum jsnum
  | JStr string
  | JArr "json list"
  | JObj "(string \<times> json) list"

abbreviation dquote :: char where "dquote \<equiv> CHR 0x22"
abbreviation backslash :: char where "backslash \<equiv> CHR 0x5C"
abbreviation newline :: char where "newline \<equiv> CHR 0x0A"

subsection \<open>Numbers as text\<close>

definition digit_char :: "nat \<Rightarrow> char" where
  "digit_char d = char_of (48 + d)"

fun digits_of :: "nat \<Rightarrow> string" where
  "digits_of n = (if n < 10 then [digit_char n] else digits_of (n div 10) @ [digit_char (n mod 10)])"

declare digits_of.simps [simp del]

text \<open>\<open>Number.prototype.toString\<close>, on an integer or \<open>NaN\<close>.\<close>

definition Number_toString :: "jsnum \<Rightarrow> string" where
  "Number_toString x =
     (case x of
        NaN \<Rightarrow> ''NaN''
      | Fin i \<Rightarrow> if i < 0 then CHR ''-'' # digits_of (nat (- i)) else digits_of (nat i))"

definition is_digit :: "char \<Rightarrow> bool" where
  "is_digit c = (48 \<le> (of_char c :: nat) \<and> (of_char c :: nat) \<le> 57)"

definition digit_val :: "char \<Rightarrow> nat" where
  "digit_val c = of_char c - 48"

fun read_nat :: "nat \<Rightarrow> string \<Rightarrow> nat \<times> string" where
  "read_nat acc [] = (acc, [])"
| "read_nat acc (c # cs) =
     (if is_digit c then read_nat (acc * 10 + digit_val c) cs else (acc, c # cs))"

text \<open>
  A JSON number: an optional minus sign, then \<open>0\<close> or a digit from 1 to 9 with more
  digits. What follows a leading \<open>0\<close> is left to the caller.
\<close>

definition parse_digits :: "(nat \<Rightarrow> int) \<Rightarrow> string \<Rightarrow> (jsnum \<times> string) option" where
  "parse_digits sign s =
     (case s of
        [] \<Rightarrow> None
      | c # cs \<Rightarrow>
          if \<not> is_digit c then None
          else let (n, rest) = (if c = CHR ''0'' then (0, cs) else read_nat 0 s)
               in if rest \<noteq> [] \<and> hd rest \<in> {CHR ''.'', CHR ''e'', CHR ''E''} then None
                  else Some (Fin (sign n), rest))"

definition parse_number :: "string \<Rightarrow> (jsnum \<times> string) option" where
  "parse_number s =
     (case s of
        [] \<Rightarrow> None
      | c # cs \<Rightarrow>
          if c = CHR ''-'' then parse_digits (\<lambda>n. - int n) cs else parse_digits int s)"

subsection \<open>Strings as text\<close>

text \<open>\<open>QuoteJSONString\<close>.\<close>

definition quote_char :: "char \<Rightarrow> string" where
  "quote_char c =
     (if c = dquote then [backslash, dquote]
      else if c = backslash then [backslash, backslash]
      else if c = CHR 0x08 then [backslash, CHR ''b'']
      else if c = CHR 0x09 then [backslash, CHR ''t'']
      else if c = CHR 0x0A then [backslash, CHR ''n'']
      else if c = CHR 0x0C then [backslash, CHR ''f'']
      else if c = CHR 0x0D then [backslash, CHR ''r'']
      else if (of_char c :: nat) < 32
      then [backslash, CHR ''u'', CHR ''0'', CHR ''0'',
            hexchar ((of_char c :: nat) div 16), hexchar ((of_char c :: nat) mod 16)]
      else [c])"

definition QuoteJSONString :: "string \<Rightarrow> string" where
  "QuoteJSONString s = dquote # concat (map quote_char s) @ [dquote]"

definition hexval :: "char \<Rightarrow> nat option" where
  "hexval c =
     (let n = (of_char c :: nat)
      in if 48 \<le> n \<and> n \<le> 57 then Some (n - 48)
         else if 97 \<le> n \<and> n \<le> 102 then Some (n - 87)
         else if 65 \<le> n \<and> n \<le> 70 then Some (n - 55)
         else None)"

definition unescape :: "char \<Rightarrow> char option" where
  "unescape e =
     (if e = dquote then Some dquote
      else if e = backslash then Some backslash
      else if e = CHR ''/'' then Some CHR ''/''
      else if e = CHR ''b'' then Some (CHR 0x08)
      else if e = CHR ''t'' then Some (CHR 0x09)
      else if e = CHR ''n'' then Some (CHR 0x0A)
      else if e = CHR ''f'' then Some (CHR 0x0C)
      else if e = CHR ''r'' then Some (CHR 0x0D)
      else None)"

definition unicode_escape :: "char \<Rightarrow> char \<Rightarrow> char \<Rightarrow> char \<Rightarrow> char option" where
  "unicode_escape h1 h2 h3 h4 =
     (case (hexval h1, hexval h2, hexval h3, hexval h4) of
        (Some a, Some b, Some c, Some d) \<Rightarrow>
          if a = 0 \<and> b = 0 then Some (char_of (16 * c + d)) else None
      | _ \<Rightarrow> None)"

text \<open>The characters of a string literal after its opening quote, up to the closing one.\<close>

fun parse_chars :: "string \<Rightarrow> (string \<times> string) option" where
  "parse_chars [] = None"
| "parse_chars (c # cs) =
     (if c = dquote then Some ([], cs)
      else if c = backslash then
        (case cs of
           [] \<Rightarrow> None
         | e # r \<Rightarrow>
             if e = CHR ''u'' then
               (case r of
                  h1 # h2 # h3 # h4 # r' \<Rightarrow>
                    (case unicode_escape h1 h2 h3 h4 of
                       None \<Rightarrow> None
                     | Some ch \<Rightarrow> map_option (\<lambda>(s, rest). (ch # s, rest)) (parse_chars r'))
                | _ \<Rightarrow> None)
             else
               (case unescape e of
                  None \<Rightarrow> None
                | Some ch \<Rightarrow> map_option (\<lambda>(s, rest). (ch # s, rest)) (parse_chars r)))
      else if (of_char c :: nat) < 32 then None
      else map_option (\<lambda>(s, rest). (c # s, rest)) (parse_chars cs))"

subsection \<open>\<open>JSON.stringify(value, null, 2)\<close>\<close>

definition indent :: "nat \<Rightarrow> string" where
  "indent level = replicate (2 * level) CHR '' ''"

text \<open>
  \<open>SerializeJSONProperty\<close> with the gap of two spaces, at a nesting level: an empty array
  or object is printed without a line break; otherwise every element or property is on
  a line of its own, indented one level deeper, and the closing bracket is on a line of
  its own. A number that is not finite is printed as \<open>null\<close>.
\<close>

fun ser :: "nat \<Rightarrow> json \<Rightarrow> string"
  and ser_elems :: "nat \<Rightarrow> json list \<Rightarrow> string"
  and ser_members :: "nat \<Rightarrow> (string \<times> json) list \<Rightarrow> string" where
  "ser level JNull = ''null''"
| "ser level (JBool b) = (if b then ''true'' else ''false'')"
| "ser level (JNum x) = (case x of NaN \<Rightarrow> ''null'' | Fin i \<Rightarrow> Number_toString (Fin i))"
| "ser level (JStr s) = QuoteJSONString s"
| "ser level (JArr []) = ''[]''"
| "ser level (JArr (x # xs)) =
     CHR ''['' # newline # indent (Suc level) @ ser_elems (Suc level) (x # xs)
       @ newline # indent level @ '']''"
| "ser level (JObj []) = ''{}''"
| "ser level (JObj (m # ms)) =
     CHR ''{'' # newline # indent (Suc level) @ ser_members (Suc level) (m # ms)
       @ newline # indent level @ ''}''"
| "ser_elems level [] = []"
| "ser_elems level [x] = ser level x"
| "ser_elems level (x # y # ys) =
     ser level x @ CHR '','' # newline # indent level @ ser_elems level (y # ys)"
| "ser_members level [] = []"
| "ser_members level [(k, v)] = QuoteJSONString k @ '': '' @ ser level v"
| "ser_members level ((k, v) # m # ms) =
     QuoteJSONString k @ '': '' @ ser level v
       @ CHR '','' # newline # indent level @ ser_members level (m # ms)"

definition JSON_stringify :: "json \<Rightarrow> string" where
  "JSON_stringify v = ser 0 v"

subsection \<open>\<open>JSON.parse\<close>\<close>

definition is_ws :: "char \<Rightarrow> bool" where
  "is_ws c = (c = CHR '' '' \<or> c = CHR 0x09 \<or> c = CHR 0x0A \<or> c = CHR 0x0D)"

definition skip_ws :: "string \<Rightarrow> string" where
  "skip_ws s = dropWhile is_ws s"

text \<open>
  The recursive descent over the text. The first argument bounds the number of nested
  calls; \<open>JSON_parse\<close> starts with more than the length of the text, and every call is
  made on a shorter text than the one before, so the bound is never what stops it.
\<close>

fun parse_value :: "nat \<Rightarrow> string \<Rightarrow> (json \<times> string) option"
  and parse_elements :: "nat \<Rightarrow> string \<Rightarrow> (json list \<times> string) option"
  and parse_members :: "nat \<Rightarrow> string \<Rightarrow> ((string \<times> json) list \<times> string) option" where
  "parse_value 0 s = None"
| "parse_value (Suc f) s =
     (case s of
        [] \<Rightarrow> None
      | c # cs \<Rightarrow>
          if c = CHR ''{'' then
            (case skip_ws cs of
               [] \<Rightarrow> None
             | d # r \<Rightarrow>
                 if d = CHR ''}'' then Some (JObj [], r)
                 else map_option (\<lambda>(ms, rest). (JObj ms, rest)) (parse_members f (d # r)))
          else if c = CHR ''['' then
            (case skip_ws cs of
               [] \<Rightarrow> None
             | d # r \<Rightarrow>
                 if d = CHR '']'' then Some (JArr [], r)
                 else map_option (\<lambda>(vs, rest). (JArr vs, rest)) (parse_elements f (d # r)))
          else if c = dquote then map_option (\<lambda>(str, rest). (JStr str, rest)) (parse_chars cs)
          else if c = CHR ''-'' \<or> is_digit c then
            map_option (\<lambda>(x, rest). (JNum x, rest)) (parse_number s)
          else if take 4 s = ''true'' then Some (JBool True, drop 4 s)
          else if take 5 s = ''false'' then Some (JBool False, drop 5 s)
          else if take 4 s = ''null'' then Some (JNull, drop 4 s)
          else None)"
| "parse_elements 0 s = None"
| "parse_elements (Suc f) s =
     (case parse_value f s of
        None \<Rightarrow> None
      | Some (v, r) \<Rightarrow>
          (case skip_ws r of
             [] \<Rightarrow> None
           | c # r' \<Rightarrow>
               if c = CHR '','' then
                 map_option (\<lambda>(vs, rest). (v # vs, rest)) (parse_elements f (skip_ws r'))
               else if c = CHR '']'' then Some ([v], r')
               else None))"
| "parse_members 0 s = None"
| "parse_members (Suc f) s =
     (case s of
        [] \<Rightarrow> None
      | q # cs \<Rightarrow>
          if q \<noteq> dquote then None
          else
            (case parse_chars cs of
               None \<Rightarrow> None
             | Some (k, r) \<Rightarrow>
                 (case skip_ws r of
                    [] \<Rightarrow> None
                  | c # r1 \<Rightarrow>
                      if c \<noteq> CHR '':'' then None
                      else
                        (case parse_value f (skip_ws r1) of
                           None \<Rightarrow> None
                         | Some (v, r2) \<Rightarrow>
                             (case skip_ws r2 of
                                [] \<Rightarrow> None
                              | d # r3 \<Rightarrow>
                                  if d = CHR '','' then
                                    map_option (\<lambda>(ms, rest). ((k, v) # ms, rest))
                                      (parse_members f (skip_ws r3))
                                  else if d = CHR ''}'' then Some ([(k, v)], r3)
                                  else None)))))"

definition JSON_parse :: "string \<Rightarrow> json option" where
  "JSON_parse s =
     (case parse_value (Suc (length s)) (skip_ws s) of
        None \<Rightarrow> None
      | Some (v, rest) \<Rightarrow> if skip_ws rest = [] then Some v else None)"

subsection \<open>Reading a value\<close>

text \<open>
  Property access \<open>v.k\<close> for a key that no prototype defines: the last property of that
  name of an object, \<open>undefined\<close> (here \<open>None\<close>) on anything else. On \<open>null\<close> the
  access raises, which is for the caller to model.
\<close>

definition get_prop :: "json \<Rightarrow> string \<Rightarrow> json option" where
  "get_prop v k = (case v of JObj ms \<Rightarrow> map_of (rev ms) k | _ \<Rightarrow> None)"

text \<open>\<open>ToString\<close>, as a template literal applies it to a value or to \<open>undefined\<close>.\<close>

fun js_toString :: "json \<Rightarrow> string"
  and js_join :: "json list \<Rightarrow> string" where
  "js_toString JNull = ''null''"
| "js_toString (JBool b) = (if b then ''true'' else ''false'')"
| "js_toString (JNum x) = Number_toString x"
| "js_toString (JStr s) = s"
| "js_toString (JArr xs) = js_join xs"
| "js_toString (JObj ms) = ''[object Object]''"
| "js_join [] = []"
| "js_join [x] = (if x = JNull then [] else js_toString x)"
| "js_join (x # y # ys) = (if x = JNull then [] else js_toString x) @ CHR '','' # js_join (y # ys)"

definition template_string :: "json option \<Rightarrow> string" where
  "template_string v = (case v of None \<Rightarrow> ''undefined'' | Some x \<Rightarrow> js_toString x)"

subsection \<open>Measures of a value\<close>

text \<open>
  A value all of whose numbers are integers, and the number of nested calls the parser
  makes on the text of a value.
\<close>

fun finite_numbers :: "json \<Rightarrow> bool"
  and finite_numbers_list :: "json list \<Rightarrow> bool"
  and finite_numbers_members :: "(string \<times> json) list \<Rightarrow> bool" where
  "finite_numbers JNull = True"
| "finite_numbers (JBool b) = True"
| "finite_numbers (JNum x) = (x \<noteq> NaN)"
| "finite_numbers (JStr s) = True"
| "finite_numbers (JArr xs) = finite_numbers_list xs"
| "finite_numbers (JObj ms) = finite_numbers_members ms"
| "finite_numbers_list [] = True"
| "finite_numbers_list (x # xs) = (finite_numbers x \<and> finite_numbers_list xs)"
| "finite_numbers_members [] = True"
| "finite_numbers_members ((k, v) # ms) = (finite_numbers v \<and> finite_numbers_members ms)"

fun calls :: "json \<Rightarrow> nat"
  and calls_list :: "json list \<Rightarrow> nat"
  and calls_members :: "(string \<times> json) list \<Rightarrow> nat" where
  "calls JNull = 1"
| "calls (JBool b) = 1"
| "calls (JNum x) = 1"
| "calls (JStr s) = 1"
| "calls (JArr xs) = Suc (calls_list xs)"
| "calls (JObj ms) = Suc (calls_members ms)"
| "calls_list [] = 0"
| "calls_list (x # xs) = Suc (calls x + calls_list xs)"
| "calls_members [] = 0"
| "calls_members ((k, v) # ms) = Suc (calls v + calls_members ms)"

text \<open>The characters the text of a value can start with.\<close>

definition value_start :: "char \<Rightarrow> bool" where
  "value_start c =
     (c = CHR ''n'' \<or> c = CHR ''t'' \<or> c = CHR ''f'' \<or> c = CHR ''-'' \<or> c = dquote
      \<or> c = CHR ''['' \<or> c = CHR ''{'' \<or> is_digit c)"

text \<open>What may follow the text of a value for a number to end there.\<close>

definition ends_number :: "string \<Rightarrow> bool" where
  "ends_number rest =
     (rest = [] \<or> (\<not> is_digit (hd rest) \<and> hd rest \<notin> {CHR ''.'', CHR ''e'', CHR ''E''}))"

section \<open>The configuration file\<close>

text \<open>The object \<open>config\<close> of \<open>generateConfig\<close> (lines 164 to 179).\<close>

definition config :: "proxy \<Rightarrow> json" where
  "config p =
     JObj
      [(''log'', JObj [(''loglevel'', JStr ''error'')]),
       (''inbounds'',
        JArr
         [JObj
           [(''port'', JNum (port p)),
            (''listen'', JStr ''0.0.0.0''),
            (''protocol'', JStr ''vless''),
            (''settings'',
             JObj
              [(''clients'', JArr [JObj [(''id'', JStr (uuid p)), (''level'', JNum (Fin 0))]]),
               (''decryption'', JStr ''none'')]),
            (''streamSettings'',
             JObj
              [(''network'', JStr ''ws''),
               (''security'', JStr ''none''),
               (''wsSettings'',
                JObj
                 [(''path'', JStr (path p)),
                  (''headers'', JObj [(''Host'', JStr (domain p))])])])]]),
       (''outbounds'', JArr [JObj [(''protocol'', JStr ''freedom''), (''settings'', JObj [])]]),
       (''policy'',
        JObj
         [(''levels'',
           JObj [(''0'', JObj [(''bufferSize'', JNum (Fin 64)), (''connIdle'', JNum (Fin 120))])])])]"

definition generateConfig :: "proxy \<Rightarrow> filesystem \<Rightarrow> string + filesystem" where
  "generateConfig p fs = writeFileSync ''config.json'' (JSON_stringify (config p)) fs"

section \<open>The lookup of the provider\<close>

text \<open>
  What the program sees of one request: the \<open>error\<close> event of the request with its
  message, the \<open>timeout\<close> event, or the \<open>end\<close> event of the response with the data
  received.
\<close>

datatype http_reply = ReqError string | ReqTimeout | Body string

definition replace_spaces :: "string \<Rightarrow> string" where
  "replace_spaces s = map (\<lambda>c. if c = CHR '' '' then CHR ''_'' else c) s"

text \<open>\<open>String.prototype.split\<close> with a separator of one character, and \<open>trim\<close>.\<close>

fun split_on :: "char \<Rightarrow> string \<Rightarrow> string list" where
  "split_on c [] = [[]]"
| "split_on c (x # xs) =
     (if x = c then [] # split_on c xs
      else case split_on c xs of
             [] \<Rightarrow> [[x]]
           | w # ws \<Rightarrow> (x # w) # ws)"

definition js_space :: "char \<Rightarrow> bool" where
  "js_space c =
     (c = CHR '' '' \<or> c = CHR 0x09 \<or> c = CHR 0x0A \<or> c = CHR 0x0B \<or> c = CHR 0x0C
      \<or> c = CHR 0x0D \<or> c = CHR 0xA0)"

definition trim :: "string \<Rightarrow> string" where
  "trim s = rev (dropWhile js_space (rev (dropWhile js_space s)))"

text \<open>
  The parser of the first source (lines 71 to 74). \<open>JSON.parse\<close> is the parameter \<open>jp\<close>,
  with \<open>None\<close> for a text it rejects; the property access raises on \<open>null\<close>. \<open>Inl\<close> is
  the exception.
\<close>

definition parse_geoip :: "(string \<Rightarrow> json option) \<Rightarrow> string \<Rightarrow> string + string" where
  "parse_geoip jp data =
     (case jp data of
        None \<Rightarrow> Inl ''SyntaxError''
      | Some info \<Rightarrow>
          if info = JNull then Inl ''TypeError''
          else Inr (replace_spaces
                 (template_string (get_prop info ''country_code'') @ ''-''
                    @ template_string (get_prop info ''organization''))))"

text \<open>The parser of the second source (lines 78 to 85); it raises on no input.\<close>

definition trace_line :: "string \<Rightarrow> (string \<Rightarrow> string option) \<Rightarrow> (string \<Rightarrow> string option)" where
  "trace_line line kv =
     (case split_on CHR ''='' line of
        k # v # others \<Rightarrow> if truthy k \<and> truthy v then kv(trim k \<mapsto> trim v) else kv
      | _ \<Rightarrow> kv)"

definition parse_trace :: "string \<Rightarrow> string + string" where
  "parse_trace data =
     (let kv = fold trace_line (split_on newline data) Map.empty
      in Inr (replace_spaces
           (or_default (kv ''loc'') ''UN'' @ ''-'' @ or_default (kv ''as_organization'') ''CF'')))"

record api_source =
  source_url :: string
  source_parse :: "string \<Rightarrow> string + string"

definition apiSources :: "(string \<Rightarrow> json option) \<Rightarrow> api_source list" where
  "apiSources jp =
     [\<lparr> source_url = ''https://api.ip.sb/geoip'', source_parse = parse_geoip jp \<rparr>,
      \<lparr> source_url = ''https://www.cloudflare.com/cdn-cgi/trace'', source_parse = parse_trace \<rparr>]"

text \<open>
  \<open>getISP\<close> (lines 67 to 112). The network is a function from the number of the attempt
  and the address to what the program sees of the request. The function returns how its
  promise ends and what it did: the requests it sent and the delays it waited, in
  order. An \<open>error\<close> or a \<open>timeout\<close> rejects the inner promise, which the \<open>catch\<close>
  handles. The parser runs inside the listener of \<open>end\<close> (line 100), not inside the
  promise's executor: an exception of the parser is thrown out of the listener and is
  uncaught. When the loop ends without a return (\<open>retries\<close> is 0) the function returns
  \<open>undefined\<close>, here \<open>None\<close>.
\<close>

datatype isp_event = Request string | Wait nat

function getISP_loop ::
  "(string \<Rightarrow> json option) \<Rightarrow> (nat \<Rightarrow> string \<Rightarrow> http_reply) \<Rightarrow> nat \<Rightarrow> nat \<Rightarrow> isp_event list
     \<Rightarrow> string option outcome \<times> isp_event list" where
  "getISP_loop jp net retries attempt trail =
     (if attempt \<le> retries then
        (let source = apiSources jp ! ((attempt - 1) mod length (apiSources jp));
             sent = trail @ [Request (source_url source)]
         in case net attempt (source_url source) of
              Body data \<Rightarrow>
                (case source_parse source data of
                   Inl e \<Rightarrow> (Uncaught e, sent)
                 | Inr isp \<Rightarrow> (Fulfilled (Some isp), sent))
            | ReqError e \<Rightarrow>
                if attempt = retries then (Fulfilled (Some ''Unknown''), sent)
                else getISP_loop jp net retries (attempt + 1) (sent @ [Wait 1000])
            | ReqTimeout \<Rightarrow>
                if attempt = retries then (Fulfilled (Some ''Unknown''), sent)
                else getISP_loop jp net retries (attempt + 1) (sent @ [Wait 1000]))
      else (Fulfilled None, trail))"
  by pat_completeness auto
termination
  by (relation "measure (\<lambda>(jp, net, retries, attempt, trail). Suc retries - attempt)") auto

declare getISP_loop.simps [simp del]

definition getISP ::
  "(string \<Rightarrow> json option) \<Rightarrow> (nat \<Rightarrow> string \<Rightarrow> http_reply) \<Rightarrow> nat
     \<Rightarrow> string option outcome \<times> isp_event list" where
  "getISP jp net retries = getISP_loop jp net retries 1 []"

text \<open>
  The policy of the loop, for its properties: an attempt has failed when the request
  ended in an error or a timeout; attempt \<open>n\<close> goes to the source with index
  \<open>(n - 1) mod 2\<close>; a failed attempt that is not the last is followed by a delay of one
  second.
\<close>

definition request_failed :: "http_reply \<Rightarrow> bool" where
  "request_failed r = (case r of Body d \<Rightarrow> False | ReqError e \<Rightarrow> True | ReqTimeout \<Rightarrow> True)"

definition attempt_url :: "nat \<Rightarrow> string" where
  "attempt_url n =
     (if (n - 1) mod 2 = 0 then ''https://api.ip.sb/geoip''
      else ''https://www.cloudflare.com/cdn-cgi/trace'')"

definition attempt_parse :: "(string \<Rightarrow> json option) \<Rightarrow> nat \<Rightarrow> string \<Rightarrow> string + string" where
  "attempt_parse jp n = (if (n - 1) mod 2 = 0 then parse_geoip jp else parse_trace)"

definition failed_attempts :: "nat \<Rightarrow> nat \<Rightarrow> isp_event list" where
  "failed_attempts a b = concat (map (\<lambda>n. [Request (attempt_url n), Wait 1000]) [a..<b])"

section \<open>The subscription link and the engine process\<close>

text \<open>
  The UTF-8 bytes of a string of one-byte characters, \<open>encodeURIComponent\<close>, and the
  Base64 text of a list of bytes.
\<close>

definition utf8 :: "string \<Rightarrow> string" where
  "utf8 s =
     concat (map (\<lambda>c. let n = (of_char c :: nat)
                       in if n < 128 then [c]
                          else [char_of (192 + n div 64), char_of (128 + n mod 64)]) s)"

definition uri_unreserved :: "char \<Rightarrow> bool" where
  "uri_unreserved c =
     (let n = (of_char c :: nat)
      in (65 \<le> n \<and> n \<le> 90) \<or> (97 \<le> n \<and> n \<le> 122) \<or> (48 \<le> n \<and> n \<le> 57)
         \<or> c \<in> set ''-_.!~*'()'')"

definition percent :: "char \<Rightarrow> string" where
  "percent c =
     [CHR ''%'', ''0123456789ABCDEF'' ! ((of_char c :: nat) div 16),
      ''0123456789ABCDEF'' ! ((of_char c :: nat) mod 16)]"

definition encodeURIComponent :: "string \<Rightarrow> string" where
  "encodeURIComponent s =
     concat (map (\<lambda>c. if uri_unreserved c then [c] else percent c) (utf8 s))"

definition b64char :: "nat \<Rightarrow> char" where
  "b64char n =
     ''ABCDEFGHIJKLMNOPQRSTUVWXYZabcdefghijklmnopqrstuvwxyz0123456789+/'' ! (n mod 64)"

fun base64 :: "nat list \<Rightarrow> string" where
  "base64 [] = []"
| "base64 [a] = [b64char (a div 4), b64char ((a mod 4) * 16), CHR ''='', CHR ''='']"
| "base64 [a, b] =
     [b64char (a div 4), b64char ((a mod 4) * 16 + b div 16), b64char ((b mod 16) * 4),
      CHR ''='']"
| "base64 (a # b # c # bs) =
     [b64char (a div 4), b64char ((a mod 4) * 16 + b div 16),
      b64char ((b mod 16) * 4 + c div 64), b64char (c mod 64)] @ base64 bs"

text \<open>
  \<open>displayInfo\<close> (lines 183 to 195), without the printing: the link is written to
  \<open>vless_xray_links.txt\<close>. The label is \<open>None\<close> when \<open>getISP\<close> returned \<open>undefined\<close>.
\<close>

definition cdnLink :: "proxy \<Rightarrow> string option \<Rightarrow> string" where
  "cdnLink p ispInfo =
     (let nodeName = name p @ ''-'' @ (case ispInfo of None \<Rightarrow> ''undefined'' | Some s \<Rightarrow> s)
      in ''vless://'' @ uuid p @ ''@'' @ domain p
           @ '':443?encryption=none&security=tls&type=ws&host='' @ encodeURIComponent (domain p)
           @ ''&path='' @ encodeURIComponent (path p)
           @ ''&sni='' @ encodeURIComponent (domain p)
           @ ''#'' @ encodeURIComponent nodeName)"

definition displayInfo :: "proxy \<Rightarrow> string option \<Rightarrow> filesystem \<Rightarrow> string + filesystem" where
  "displayInfo p ispInfo fs =
     (let base64Link = base64 (map of_char (utf8 (cdnLink p ispInfo)))
      in writeFileSync ''vless_xray_links.txt'' base64Link fs)"

text \<open>
  \<open>startService\<close> (lines 197 to 201): the child is spawned from the installed binary,
  with two variables added to the environment.
\<close>

definition startService :: "proxy \<Rightarrow> proxy" where
  "startService p =
     p\<lparr>process := Some \<lparr> command = xrayPath p,
                          args = [''run'', ''-config'', ''config.json''],
                          child_env = [(''GOMEMLIMIT'', ''12MiB''), (''GOGC'', ''10'')],
                          received = [] \<rparr>\<rparr>"

section \<open>The main function\<close>

text \<open>
  \<open>parseInt\<close> with no radix: leading white space, an optional sign, then hexadecimal
  digits after \<open>0x\<close> or decimal digits; \<open>NaN\<close> when there is no digit. The result is
  the integer the digits denote, which is what JavaScript gives below \<open>2^53\<close>; above, it
  rounds to the nearest double.
\<close>

fun read_hex :: "nat \<Rightarrow> string \<Rightarrow> nat" where
  "read_hex acc [] = acc"
| "read_hex acc (c # cs) =
     (case hexval c of None \<Rightarrow> acc | Some d \<Rightarrow> read_hex (acc * 16 + d) cs)"

definition parseInt :: "string \<Rightarrow> jsnum" where
  "parseInt s =
     (let s1 = dropWhile js_space s;
          neg = (s1 \<noteq> [] \<and> hd s1 = CHR ''-'');
          s2 = (if s1 \<noteq> [] \<and> (hd s1 = CHR ''-'' \<or> hd s1 = CHR ''+'') then tl s1 else s1);
          sign = (\<lambda>n. if neg then - int n else int n)
      in if take 2 s2 = ''0x'' \<or> take 2 s2 = ''0X'' then
           (case drop 2 s2 of
              [] \<Rightarrow> NaN
            | c # cs \<Rightarrow> if hexval c = None then NaN else Fin (sign (read_hex 0 (c # cs))))
         else
           (case s2 of
              [] \<Rightarrow> NaN
            | c # cs \<Rightarrow> if is_digit c then Fin (sign (fst (read_nat 0 s2))) else NaN))"

text \<open>
  What the program reads from its surroundings: the variables of the process, the
  architecture, its own directory, the identifier \<open>crypto.randomUUID\<close> would give, the
  digest function, \<open>JSON.parse\<close>, the two networks and the file system at the start.
\<close>

record environment =
  process_env :: "string \<Rightarrow> string option"
  os_arch :: string
  script_dir :: string
  random_uuid :: string
  md5_digest :: "string \<Rightarrow> 128 word"
  json_parser :: "string \<Rightarrow> json option"
  isp_network :: "nat \<Rightarrow> string \<Rightarrow> http_reply"
  download_network :: "string \<Rightarrow> http_response"
  disk :: filesystem

text \<open>The constants of lines 17 to 21.\<close>

definition DOMAIN :: "environment \<Rightarrow> string" where
  "DOMAIN E = or_default (process_env E ''DOMAIN'') ''example.com''"

definition UUID :: "environment \<Rightarrow> string" where
  "UUID E = or_default (process_env E ''UUID'') []"

definition WSPATH :: "environment \<Rightarrow> string" where
  "WSPATH E = or_default (process_env E ''WSPATH'') []"

definition PORT :: "environment \<Rightarrow> string" where
  "PORT E = or_default (process_env E ''PORT'') []"

definition NAME :: "environment \<Rightarrow> string" where
  "NAME E = or_default (process_env E ''NAME'') ''Panel''"

text \<open>
  \<open>detectEnvironment\<close> (lines 53 to 65): the address and the port of the server, or
  \<open>None\<close> when the process exits with status 1.
\<close>

definition detectEnvironment :: "environment \<Rightarrow> (string \<times> jsnum) option" where
  "detectEnvironment E =
     (if truthy (or_default (process_env E ''SERVER_IP'') [])
         \<and> truthy (or_default (process_env E ''SERVER_PORT'') [])
      then Some (the (process_env E ''SERVER_IP''), parseInt (the (process_env E ''SERVER_PORT'')))
      else None)"

text \<open>
  \<open>main\<close> (lines 211 to 223), up to the point where its promise is settled or can no
  longer be settled: how the promise ends, and the host process then. An uncaught
  exception ends the process with status 1. \<open>None\<close> is a run whose download never ends.
\<close>

datatype run = EnvironmentMissing | Ran "unit outcome" host

definition main :: "environment \<Rightarrow> run option" where
  "main E =
     (case detectEnvironment E of
        None \<Rightarrow> Some EnvironmentMissing
      | Some (serverIp, directPort) \<Rightarrow>
          let finalPort = (if PORT E = [] then directPort else parseInt (PORT E));
              h0 = setupSignalHandlers
                     \<lparr> proxy = XrayProxy (md5_digest E) (random_uuid E) (script_dir E) (WSPATH E)
                                 (DOMAIN E) (UUID E) finalPort (NAME E),
                       files = disk E, handlers = [], exited = None, cleanup_runs = 0 \<rparr>
          in case fst (getISP (json_parser E) (isp_network E) 3) of
               Uncaught e \<Rightarrow> Some (Ran (Uncaught e) (h0\<lparr>exited := Some (Code 1)\<rparr>))
             | Rejected e \<Rightarrow> Some (Ran (Rejected e) h0)
             | Pending \<Rightarrow> Some (Ran Pending h0)
             | Fulfilled ispInfo \<Rightarrow>
                 (case downloadAndExtract (os_arch E) (download_network E) (proxy h0) (files h0) of
                    None \<Rightarrow> None
                  | Some (r, fs1) \<Rightarrow>
                      (case r of
                         Uncaught e \<Rightarrow>
                           Some (Ran (Uncaught e) (h0\<lparr>files := fs1, exited := Some (Code 1)\<rparr>))
                       | Rejected e \<Rightarrow> Some (Ran (Rejected e) (h0\<lparr>files := fs1\<rparr>))
                       | Pending \<Rightarrow> Some (Ran Pending (h0\<lparr>files := fs1\<rparr>))
                       | Fulfilled ok \<Rightarrow>
                           if ok then
                             (case generateConfig (proxy h0) fs1 of
                                Inl e \<Rightarrow> Some (Ran (Rejected e) (h0\<lparr>files := fs1\<rparr>))
                              | Inr fs2 \<Rightarrow>
                                  (case displayInfo (proxy h0) ispInfo fs2 of
                                     Inl e \<Rightarrow> Some (Ran (Rejected e) (h0\<lparr>files := fs2\<rparr>))
                                   | Inr fs3 \<Rightarrow>
                                       Some (Ran (Fulfilled ())
                                              (h0\<lparr>files := fs3,
                                                   proxy := startService (proxy h0)\<rparr>))))
                           else Some (Ran (Fulfilled ()) (h0\<lparr>files := fs1\<rparr>)))))"

section \<open>Example states\<close>

text \<open>
  A host whose engine is running: the constructor has installed the handlers, the
  configuration and the subscription link are on disk, the archive is gone.
\<close>

definition running_host :: host where
  "running_host =
     setupSignalHandlers
      \<lparr> proxy = (XrayProxy (\<lambda>s. 0) ''r'' ''/home/container'' [] ''example.com'' ''u''
                    (Fin 25565) ''Panel'')
                 \<lparr>process := Some \<lparr> command = ''/home/container/xray/xray'',
                                      args = [''run'', ''-config'', ''config.json''],
                                      child_env = [(''GOMEMLIMIT'', ''12MiB''), (''GOGC'', ''10'')],
                                      received = [] \<rparr>\<rparr>,
        files = \<lparr> nodes = (\<lambda>p. if p = ''config.json'' then Some (File (Raw ''{}'') 420)
                               else if p = ''vless_xray_links.txt''
                               then Some (File (Raw ''dmxlc3M='') 420)
                               else if p = ''/home/container/xray'' then Some Dir
                               else if p = ''/home/container/xray/xray''
                               then Some (File (Raw ''ELF'') 493)
                               else None),
                  undeletable = {} \<rparr>,
        handlers = [],
        exited = None,
        cleanup_runs = 0 \<rparr>"

text \<open>
  A host that has started no engine: \<open>config.json\<close> is a directory, the subscription link
  of an earlier run is on disk, there is no archive.
\<close>

definition idle_host :: host where
  "idle_host =
     \<lparr> proxy = XrayProxy (\<lambda>s. 0) ''r'' ''/home/container'' [] ''example.com'' ''u''
                  (Fin 25565) ''Panel'',
       files = \<lparr> nodes = (\<lambda>p. if p = ''config.json'' then Some Dir
                              else if p = ''vless_xray_links.txt''
                              then Some (File (Raw ''dmxlc3M='') 420)
                              else None),
                 undeletable = {} \<rparr>,
       handlers = [SIGINT, SIGTERM],
       exited = None,
       cleanup_runs = 0 \<rparr>"

text \<open>
  A file system with nothing but the directory of the program, and two networks: one
  that redirects the release address once and then serves an archive with the engine
  among its entries, and one on which every address redirects to itself.
\<close>

definition fresh_fs :: filesystem where
  "fresh_fs = \<lparr> nodes = (\<lambda>p. if p = ''/home/container'' then Some Dir else None),
                undeletable = {} \<rparr>"

definition release_archive :: content where
  "release_archive =
     Archive [\<lparr> fileName = ''LICENSE'', payload = Data ''MPL'' \<rparr>,
              \<lparr> fileName = ''README.md'', payload = Data ''# Xray'' \<rparr>,
              \<lparr> fileName = ''xray'', payload = Data ''ELF'' \<rparr>]"

definition redirecting_server :: "string \<Rightarrow> http_response" where
  "redirecting_server u =
     (if u = ''https://github.com/XTLS/Xray-core/releases/latest/download/Xray-linux-64.zip''
      then Response 302 (Some ''https://objects.example/Xray-linux-64.zip'') (Raw [])
      else if u = ''https://objects.example/Xray-linux-64.zip''
      then Response 200 None release_archive
      else NetError ''ENOTFOUND'')"

definition looping_server :: "string \<Rightarrow> http_response" where
  "looping_server u = Response 302 (Some u) (Raw [])"

text \<open>
  A network that serves an archive without the engine, and two surroundings of the
  program that differ in the download network only.
\<close>

definition docs_archive :: content where
  "docs_archive =
     Archive [\<lparr> fileName = ''LICENSE'', payload = Data ''MPL'' \<rparr>,
              \<lparr> fileName = ''README.md'', payload = Data ''# Xray'' \<rparr>,
              \<lparr> fileName = ''geoip.dat'', payload = Data ''GEO'' \<rparr>]"

definition docs_server :: "string \<Rightarrow> http_response" where
  "docs_server u = Response 200 None docs_archive"

definition panel :: environment where
  "panel =
     \<lparr> process_env = (\<lambda>k. if k = ''SERVER_IP'' then Some ''1.2.3.4''
                            else if k = ''SERVER_PORT'' then Some ''25565''
                            else if k = ''UUID'' then Some ''1b4e28ba-2fa1-11d2-883f-0016d3cca427''
                            else None),
       os_arch = ''x64'',
       script_dir = ''/home/container'',
       random_uuid = ''9f0c5c64-3a0b-4d6e-8a43-0d6b1f0a7c11'',
       md5_digest = (\<lambda>s. 0),
       json_parser = JSON_parse,
       isp_network = (\<lambda>n u. if u = ''https://www.cloudflare.com/cdn-cgi/trace''
                             then Body ''loc=DE\<newline>as_organization=Example Net''
                             else ReqTimeout),
       download_network = redirecting_server,
       disk = fresh_fs \<rparr>"

definition panel_without_engine :: environment where
  "panel_without_engine = panel\<lparr>download_network := docs_server\<rparr>"

section \<open>Properties of the identity and of the download address\<close>

lemma length_digest_hex: "length (digest_hex w) = 32"
  by (simp add: digest_hex_def)

lemma hexchar_is_hex: "hexchar n \<in> set ''0123456789abcdef''"
  unfolding hexchar_def by (rule nth_mem) simp

lemma digest_hex_chars: "set (digest_hex w) \<subseteq> set ''0123456789abcdef''"
  unfolding digest_hex_def using hexchar_is_hex by auto

lemma derive_path_length: "length (derive_path md5 u) = 9"
  by (simp add: derive_path_def length_digest_hex)

lemma derive_path_tail: "set (tl (derive_path md5 u)) \<subseteq> set ''0123456789abcdef''"
proof -
  have "set (take 8 (digest_hex (md5 u))) \<subseteq> set (digest_hex (md5 u))"
    by (rule set_take_subset)
  with digest_hex_chars [of "md5 u"] show ?thesis
    by (simp add: derive_path_def)
qed

text \<open>
  C5. With no fixed access path (\<open>WSPATH\<close> empty) the access path of the constructed
  object is a slash followed by the first 8 characters of the hexadecimal digest of the
  object's identifier: it has length 9, starts with a slash, its other characters are
  hexadecimal digits, and two constructions that end with the same identifier end with
  the same path, whatever their other arguments are.
\<close>

theorem derived_path_deterministic:
  "path (XrayProxy md5 rnd dir [] dmn uid prt nm)
     = CHR ''/'' # take 8 (digest_hex (md5 (uuid (XrayProxy md5 rnd dir [] dmn uid prt nm))))
   \<and> length (path (XrayProxy md5 rnd dir [] dmn uid prt nm)) = 9
   \<and> startsWith (path (XrayProxy md5 rnd dir [] dmn uid prt nm)) ''/''
   \<and> set (tl (path (XrayProxy md5 rnd dir [] dmn uid prt nm))) \<subseteq> set ''0123456789abcdef''
   \<and> (uuid (XrayProxy md5 rnd' dir' [] dmn' uid' prt' nm')
          = uuid (XrayProxy md5 rnd dir [] dmn uid prt nm)
        \<longrightarrow> path (XrayProxy md5 rnd' dir' [] dmn' uid' prt' nm')
          = path (XrayProxy md5 rnd dir [] dmn uid prt nm))"
proof -
  let ?p = "XrayProxy md5 rnd dir [] dmn uid prt nm"
  have p: "path ?p = derive_path md5 (uuid ?p)"
    by (simp add: XrayProxy_def Let_def truthy_def)
  have p': "path (XrayProxy md5 rnd' dir' [] dmn' uid' prt' nm')
              = derive_path md5 (uuid (XrayProxy md5 rnd' dir' [] dmn' uid' prt' nm'))"
    by (simp add: XrayProxy_def Let_def truthy_def)
  have 1: "path ?p = CHR ''/'' # take 8 (digest_hex (md5 (uuid ?p)))"
    by (simp add: p derive_path_def)
  have 2: "length (path ?p) = 9"
    by (simp only: p derive_path_length)
  have 3: "startsWith (path ?p) ''/''"
    by (simp add: 1 startsWith_def)
  have 4: "set (tl (path ?p)) \<subseteq> set ''0123456789abcdef''"
    by (simp only: p derive_path_tail)
  from 1 2 3 4 p p' show ?thesis by simp
qed

theorem derived_path_deterministic_witness:
  "length (path (XrayProxy (\<lambda>s. of_nat (length s)) ''r1'' ''/home/container'' []
             ''example.com'' ''1b4e28ba-2fa1-11d2-883f-0016d3cca427'' (Fin 25565) ''Panel'')) = 9
   \<and> path (XrayProxy (\<lambda>s. of_nat (length s)) ''r2'' ''/srv'' [] ''example.org''
           ''1b4e28ba-2fa1-11d2-883f-0016d3cca427'' (Fin 443) ''Other'')
     = path (XrayProxy (\<lambda>s. of_nat (length s)) ''r1'' ''/home/container'' [] ''example.com''
           ''1b4e28ba-2fa1-11d2-883f-0016d3cca427'' (Fin 25565) ''Panel'')"
  using derived_path_deterministic
    [of "\<lambda>s. of_nat (length s)" "''r1''" "''/home/container''" "''example.com''"
        "''1b4e28ba-2fa1-11d2-883f-0016d3cca427''" "Fin 25565" "''Panel''"
        "''r2''" "''/srv''" "''example.org''" "''1b4e28ba-2fa1-11d2-883f-0016d3cca427''"
        "Fin 443" "''Other''"]
  by (simp add: XrayProxy_def Let_def truthy_def derive_path_def length_digest_hex)

text \<open>
  C10. A non-empty caller-supplied access path is used unchanged when it starts with a
  slash and gets a slash prepended otherwise; in both cases the access path of the
  constructed object starts with a slash.
\<close>

theorem supplied_path_starts_with_slash:
  assumes "wspath \<noteq> []"
  shows "path (XrayProxy md5 rnd dir wspath dmn uid prt nm)
           = (if startsWith wspath ''/'' then wspath else ''/'' @ wspath)
         \<and> startsWith (path (XrayProxy md5 rnd dir wspath dmn uid prt nm)) ''/''"
  using assms by (simp add: XrayProxy_def Let_def truthy_def startsWith_def)

theorem supplied_path_starts_with_slash_witness:
  "path (XrayProxy (\<lambda>s. 0) ''r'' ''/home/container'' ''ws'' ''example.com'' ''u'' (Fin 443) ''Panel'')
     = ''/ws''
   \<and> path (XrayProxy (\<lambda>s. 0) ''r'' ''/home/container'' ''/ws'' ''example.com'' ''u'' (Fin 443) ''Panel'')
     = ''/ws''"
  using supplied_path_starts_with_slash
          [of "''ws''" "\<lambda>s. 0" "''r''" "''/home/container''" "''example.com''" "''u''"
              "Fin 443" "''Panel''"]
        supplied_path_starts_with_slash
          [of "''/ws''" "\<lambda>s. 0" "''r''" "''/home/container''" "''example.com''" "''u''"
              "Fin 443" "''Panel''"]
  by (simp add: startsWith_def)

text \<open>
  C8, as the code has it. The address for \<open>arm64\<close> names the asset \<open>arm64-v8a\<close>; the
  address for every other architecture, \<open>x64\<close> or not, names the asset \<open>64\<close>; the two
  addresses differ; the function has no error result.
\<close>

theorem getXrayDownloadUrl_two_assets:
  "getXrayDownloadUrl ''arm64''
     = ''https://github.com/XTLS/Xray-core/releases/latest/download/Xray-linux-arm64-v8a.zip''
   \<and> (arch \<noteq> ''arm64'' \<longrightarrow> getXrayDownloadUrl arch
     = ''https://github.com/XTLS/Xray-core/releases/latest/download/Xray-linux-64.zip'')
   \<and> getXrayDownloadUrl ''arm64'' \<noteq> getXrayDownloadUrl ''x64''"
  by (simp add: getXrayDownloadUrl_def)

theorem getXrayDownloadUrl_two_assets_witness:
  "getXrayDownloadUrl ''riscv64''
     = ''https://github.com/XTLS/Xray-core/releases/latest/download/Xray-linux-64.zip''"
  using getXrayDownloadUrl_two_assets [of "''riscv64''"] by simp

text \<open>
  C8, as the specification states it, fails: the architecture \<open>ia32\<close> is neither of the
  two supported ones, and it gets the address of the \<open>x64\<close> asset, not an error.
\<close>

theorem getXrayDownloadUrl_defaults_counterexample:
  "getXrayDownloadUrl ''ia32''
     = ''https://github.com/XTLS/Xray-core/releases/latest/download/Xray-linux-64.zip''
   \<and> getXrayDownloadUrl ''ia32'' = getXrayDownloadUrl ''x64''"
  by (simp add: getXrayDownloadUrl_def)

section \<open>Properties of the cleanup\<close>

lemma cleanup_file_result:
  "\<exists>fs'. cleanup_file f fs = Inr fs' \<and> undeletable fs' = undeletable fs
     \<and> (\<forall>g. nodes fs' g = (if g = f \<and> deletable fs f then None else nodes fs g))"
  by (auto simp: cleanup_file_def try_catch_def existsSync_def unlinkSync_def deletable_def
           split: option.splits node.splits)

lemma forEach_cleanup_file:
  "\<exists>fs'. forEach cleanup_file xs fs = Inr fs' \<and> undeletable fs' = undeletable fs
     \<and> (\<forall>g. nodes fs' g = (if g \<in> set xs \<and> deletable fs g then None else nodes fs g))"
proof (induction xs arbitrary: fs)
  case Nil
  then show ?case by simp
next
  case (Cons x xs)
  obtain fs1 where 1: "cleanup_file x fs = Inr fs1" "undeletable fs1 = undeletable fs"
      "\<And>g. nodes fs1 g = (if g = x \<and> deletable fs x then None else nodes fs g)"
    using cleanup_file_result [of x fs] by blast
  obtain fs2 where 2: "forEach cleanup_file xs fs1 = Inr fs2" "undeletable fs2 = undeletable fs1"
      "\<And>g. nodes fs2 g = (if g \<in> set xs \<and> deletable fs1 g then None else nodes fs1 g)"
    using Cons.IH [of fs1] by blast
  have d: "deletable fs1 g = (deletable fs g \<and> \<not> (g = x \<and> deletable fs x))" for g
    by (auto simp: deletable_def 1 split: option.splits node.splits)
  have "forEach cleanup_file (x # xs) fs = Inr fs2"
    by (simp add: 1 2)
  moreover have "undeletable fs2 = undeletable fs"
    by (simp add: 1 2)
  moreover have "nodes fs2 g = (if g \<in> set (x # xs) \<and> deletable fs g then None else nodes fs g)"
    for g
    by (auto simp: 1 2 d)
  ultimately show ?case by blast
qed

lemma deliver_all_exited: "exited h \<noteq> None \<Longrightarrow> deliver_all evs h = h"
  by (induction evs arbitrary: h) (simp_all add: deliver_def)

lemma cleanup_result:
  "\<exists>h'. cleanup h = Inr h'
     \<and> (process (proxy h) = None \<longrightarrow> proxy h' = proxy h)
     \<and> (\<forall>c. process (proxy h) = Some c \<longrightarrow>
           proxy h' = (proxy h)\<lparr>process := Some (c\<lparr>received := received c @ [SIGTERM]\<rparr>)\<rparr>)
     \<and> (\<forall>g. nodes (files h') g
           = (if g \<in> set artifacts \<and> deletable (files h) g then None else nodes (files h) g))
     \<and> undeletable (files h') = undeletable (files h)
     \<and> cleanup_runs h' = Suc (cleanup_runs h)
     \<and> handlers h' = handlers h \<and> exited h' = exited h"
proof -
  let ?h1 = "case process (proxy h) of
               None \<Rightarrow> h
             | Some c \<Rightarrow> h\<lparr>proxy := (proxy h)\<lparr>process := Some (kill SIGTERM c)\<rparr>\<rparr>"
  have f1: "files ?h1 = files h" by (simp split: option.splits)
  obtain fs' where fs': "forEach cleanup_file artifacts (files h) = Inr fs'"
      "undeletable fs' = undeletable (files h)"
      "\<And>g. nodes fs' g
         = (if g \<in> set artifacts \<and> deletable (files h) g then None else nodes (files h) g)"
    using forEach_cleanup_file [of artifacts "files h"] by blast
  have c: "cleanup h = Inr (?h1\<lparr>files := fs', cleanup_runs := Suc (cleanup_runs ?h1)\<rparr>)"
    by (simp add: cleanup_def Let_def f1 fs')
  show ?thesis
    unfolding c using fs' by (auto simp: kill_def split: option.splits)
qed

text \<open>
  C9. For every state of the host process, \<open>cleanup\<close> returns normally. When no engine
  process was started the proxy object, and with it the absent child, is left as it was;
  when one was started it receives exactly one more signal, \<open>SIGTERM\<close>. Each of the three
  artifact paths is removed exactly when it names a file the process may delete, whatever
  state the other two are in: a missing path, a directory or a forbidden deletion stops
  neither the cleanup nor the other deletions. No other path changes.
\<close>

theorem cleanup_never_raises:
  "\<exists>h'. cleanup h = Inr h'
     \<and> (process (proxy h) = None \<longrightarrow> proxy h' = proxy h)
     \<and> (\<forall>c. process (proxy h) = Some c \<longrightarrow>
           proxy h' = (proxy h)\<lparr>process := Some (c\<lparr>received := received c @ [SIGTERM]\<rparr>)\<rparr>)
     \<and> (\<forall>g. nodes (files h') g
           = (if g \<in> set artifacts \<and> deletable (files h) g then None else nodes (files h) g))
     \<and> undeletable (files h') = undeletable (files h)
     \<and> cleanup_runs h' = Suc (cleanup_runs h)
     \<and> handlers h' = handlers h \<and> exited h' = exited h"
  by (rule cleanup_result)

theorem cleanup_never_raises_witness:
  "\<not> isl (cleanup idle_host)
   \<and> proxy (projr (cleanup idle_host)) = proxy idle_host
   \<and> nodes (files (projr (cleanup idle_host))) ''xray.zip'' = None
   \<and> nodes (files (projr (cleanup idle_host))) ''config.json'' = Some Dir
   \<and> nodes (files (projr (cleanup idle_host))) ''vless_xray_links.txt'' = None
   \<and> \<not> isl (cleanup running_host)
   \<and> map_option received (process (proxy (projr (cleanup running_host)))) = Some [SIGTERM]
   \<and> nodes (files (projr (cleanup running_host))) ''config.json'' = None"
proof -
  have i: "process (proxy idle_host) = None"
      "nodes (files idle_host) ''xray.zip'' = None"
      "nodes (files idle_host) ''config.json'' = Some Dir"
      "deletable (files idle_host) ''vless_xray_links.txt''"
      "\<not> deletable (files idle_host) ''config.json''"
    by (simp_all add: idle_host_def deletable_def XrayProxy_def Let_def)
  have r: "deletable (files running_host) ''config.json''"
    by (simp add: running_host_def setupSignalHandlers_def deletable_def)
  have a: "''xray.zip'' \<in> set artifacts" "''config.json'' \<in> set artifacts"
      "''vless_xray_links.txt'' \<in> set artifacts"
    by (simp_all add: artifacts_def)
  from cleanup_never_raises [of idle_host] i a have 1:
    "\<not> isl (cleanup idle_host)
     \<and> proxy (projr (cleanup idle_host)) = proxy idle_host
     \<and> nodes (files (projr (cleanup idle_host))) ''xray.zip'' = None
     \<and> nodes (files (projr (cleanup idle_host))) ''config.json'' = Some Dir
     \<and> nodes (files (projr (cleanup idle_host))) ''vless_xray_links.txt'' = None"
    by auto
  obtain h' where h': "cleanup running_host = Inr h'"
      "\<forall>c. process (proxy running_host) = Some c \<longrightarrow>
           proxy h' = (proxy running_host)\<lparr>process := Some (c\<lparr>received := received c @ [SIGTERM]\<rparr>)\<rparr>"
      "\<forall>g. nodes (files h') g
           = (if g \<in> set artifacts \<and> deletable (files running_host) g then None
              else nodes (files running_host) g)"
    using cleanup_never_raises [of running_host] by (elim exE conjE) (rule that, assumption+)
  obtain c where c: "process (proxy running_host) = Some c" "received c = []"
    by (simp add: running_host_def setupSignalHandlers_def)
  have "proxy h' = (proxy running_host)\<lparr>process := Some (c\<lparr>received := received c @ [SIGTERM]\<rparr>)\<rparr>"
    using h'(2) c(1) by blast
  then have p: "map_option received (process (proxy h')) = Some [SIGTERM]"
    by (simp add: c(2))
  have n: "nodes (files h') ''config.json'' = None"
    using h'(3) r a by simp
  have 2:
    "\<not> isl (cleanup running_host)
     \<and> map_option received (process (proxy (projr (cleanup running_host)))) = Some [SIGTERM]
     \<and> nodes (files (projr (cleanup running_host))) ''config.json'' = None"
    using p n by (simp add: h'(1))
  from 1 2 show ?thesis by simp
qed

section \<open>Properties of the download\<close>

lemma downloadFile_redirect:
  "redirect_of server url = Some l \<Longrightarrow>
     downloadFile server url dest fs = downloadFile server l dest fs"
  by (subst downloadFile.simps)
     (auto simp: redirect_of_def split: http_response.splits if_splits)

lemma downloadFile_no_redirect:
  "redirect_of server url = None \<Longrightarrow>
     downloadFile server url dest fs = Some (settle server url dest fs)"
  by (subst downloadFile.simps)
     (auto simp: redirect_of_def settle_def is_redirect_def
           split: http_response.splits if_splits sum.splits option.splits)

lemma downloadFile_follows:
  "redirected server n url = Some final \<Longrightarrow>
     downloadFile server url dest fs = downloadFile server final dest fs"
proof (induction n arbitrary: url)
  case 0
  then show ?case by simp
next
  case (Suc n)
  then obtain l where l: "redirect_of server url = Some l" "redirected server n l = Some final"
    by (auto split: option.splits)
  from Suc.IH [OF l(2)] downloadFile_redirect [OF l(1)] show ?case by simp
qed

lemma downloadFile_returns_only_after_finitely_many_redirects:
  assumes "downloadFile server url dest fs = Some y"
  shows "\<exists>n final. redirected server n url = Some final \<and> redirect_of server final = None"
  using assms
proof (induction server url dest fs y rule: downloadFile.raw_induct [rotated 1, consumes 1])
  case (1 f server url dest fs y)
  show ?case
  proof (cases "redirect_of server url")
    case None
    then have "redirected server 0 url = Some url \<and> redirect_of server url = None" by simp
    then show ?thesis by blast
  next
    case (Some l)
    then have "f server l dest fs = Some y"
      using 1(2) by (auto simp: redirect_of_def split: http_response.splits if_splits)
    from 1(1) [OF this] obtain n final
      where "redirected server n l = Some final" "redirect_of server final = None" by blast
    with Some have "redirected server (Suc n) url = Some final \<and> redirect_of server final = None"
      by simp
    then show ?thesis by blast
  qed
qed

lemma redirected_looping_server:
  "url \<noteq> [] \<Longrightarrow> redirected looping_server n url = Some url"
  by (induction n)
     (simp_all add: redirect_of_def looping_server_def is_redirect_def truthy_def)

text \<open>
  C7, as the code has it. The download follows every redirect, with no bound on their
  number: when the chain of redirects from the address reaches, after any number \<open>n\<close> of
  them, a response that is not a redirect (or a request error), the download ends with
  what that last response gives; when every response of the chain is a redirect, the
  download never ends.
\<close>

theorem downloadFile_follows_every_redirect:
  "(redirected server n url = Some final \<and> redirect_of server final = None
      \<longrightarrow> downloadFile server url dest fs = Some (settle server final dest fs))
   \<and> ((\<forall>k. \<exists>u. redirected server k url = Some u \<and> redirect_of server u \<noteq> None)
      \<longrightarrow> downloadFile server url dest fs = None)"
proof (intro conjI impI)
  assume "redirected server n url = Some final \<and> redirect_of server final = None"
  then show "downloadFile server url dest fs = Some (settle server final dest fs)"
    using downloadFile_follows [of server n url final dest fs]
          downloadFile_no_redirect [of server final dest fs] by simp
next
  assume endless: "\<forall>k. \<exists>u. redirected server k url = Some u \<and> redirect_of server u \<noteq> None"
  show "downloadFile server url dest fs = None"
  proof (rule ccontr)
    assume "downloadFile server url dest fs \<noteq> None"
    then obtain y where "downloadFile server url dest fs = Some y" by blast
    from downloadFile_returns_only_after_finitely_many_redirects [OF this] obtain n final
      where "redirected server n url = Some final" "redirect_of server final = None" by blast
    with endless [rule_format, of n] show False by auto
  qed
qed

theorem downloadFile_follows_every_redirect_witness:
  "downloadFile redirecting_server (getXrayDownloadUrl ''x64'') ''xray.zip'' fresh_fs
     = Some (Fulfilled (),
             fresh_fs\<lparr>nodes := (nodes fresh_fs)(''xray.zip'' \<mapsto> File release_archive 420)\<rparr>)
   \<and> downloadFile looping_server ''https://loop.example/a'' ''xray.zip'' fresh_fs = None"
proof -
  have 1: "redirected redirecting_server (Suc 0) (getXrayDownloadUrl ''x64'')
             = Some ''https://objects.example/Xray-linux-64.zip''
           \<and> redirect_of redirecting_server ''https://objects.example/Xray-linux-64.zip'' = None"
    by (simp add: getXrayDownloadUrl_def redirect_of_def redirecting_server_def
                  is_redirect_def truthy_def)
  have 2: "\<forall>k. \<exists>u. redirected looping_server k ''https://loop.example/a'' = Some u
                   \<and> redirect_of looping_server u \<noteq> None"
    by (simp add: redirected_looping_server redirect_of_def looping_server_def
                  is_redirect_def truthy_def)
  have 3: "settle redirecting_server ''https://objects.example/Xray-linux-64.zip''
             ''xray.zip'' fresh_fs
           = (Fulfilled (),
              fresh_fs\<lparr>nodes := (nodes fresh_fs)(''xray.zip'' \<mapsto> File release_archive 420)\<rparr>)"
    by (simp add: settle_def redirecting_server_def writeStream_def parent_is_dir_def
                  path_dirname_def startsWith_def fresh_fs_def Let_def)
  show ?thesis
    using downloadFile_follows_every_redirect
            [of redirecting_server "Suc 0" "getXrayDownloadUrl ''x64''"
                "''https://objects.example/Xray-linux-64.zip''" "''xray.zip''" fresh_fs]
          downloadFile_follows_every_redirect
            [of looping_server 0 "''https://loop.example/a''" "''https://loop.example/a''"
                "''xray.zip''" fresh_fs]
          1 2 3
    by simp
qed

text \<open>
  C7, as the specification states it, fails: the recursion has no cap. On a network
  where the address redirects to itself, the download never ends.
\<close>

theorem downloadFile_redirect_loop_counterexample:
  "downloadFile looping_server ''https://loop.example/a'' ''xray.zip'' fresh_fs = None"
proof (rule ccontr)
  assume "downloadFile looping_server ''https://loop.example/a'' ''xray.zip'' fresh_fs \<noteq> None"
  then obtain y
    where "downloadFile looping_server ''https://loop.example/a'' ''xray.zip'' fresh_fs = Some y"
    by blast
  from downloadFile_returns_only_after_finitely_many_redirects [OF this] obtain n final
    where "redirected looping_server n ''https://loop.example/a'' = Some final"
      "redirect_of looping_server final = None" by blast
  then show False
    by (auto simp: redirected_looping_server redirect_of_def looping_server_def
                   is_redirect_def truthy_def)
qed

section \<open>Properties of the extraction\<close>

lemma path_dirname_xrayPath: "path_dirname (dir @ ''/xray/xray'') = dir @ ''/xray''"
  by (cases dir) (simp_all add: path_dirname_def)

lemma xrayPath_not_zip: "dir @ ''/xray/xray'' \<noteq> ''xray.zip''"
proof
  assume "dir @ ''/xray/xray'' = ''xray.zip''"
  then have "last (dir @ ''/xray/xray'') = last ''xray.zip''" by (rule arg_cong)
  then show False by simp
qed

lemma xrayDir_not_zip: "dir @ ''/xray'' \<noteq> ''xray.zip''"
proof
  assume "dir @ ''/xray'' = ''xray.zip''"
  then have "last (dir @ ''/xray'') = last ''xray.zip''" by (rule arg_cong)
  then show False by simp
qed

lemma xrayDir_not_xrayPath: "dir @ ''/xray'' \<noteq> dir @ ''/xray/xray''"
  by simp

lemma writeStream_ok:
  assumes "parent_is_dir fs p" and "nodes fs p \<noteq> Some Dir"
  shows "\<exists>fs' m'. writeStream p c fs = Inr fs' \<and> nodes fs' = (nodes fs)(p \<mapsto> File c m')
           \<and> undeletable fs' = undeletable fs"
proof (cases "nodes fs p")
  case None
  with assms show ?thesis by (auto simp: writeStream_def)
next
  case (Some n)
  with assms obtain c' m where "n = File c' m" by (cases n) auto
  with Some assms show ?thesis by (auto simp: writeStream_def)
qed

lemma on_xray_entry_ok:
  assumes e: "payload e = Data d"
    and x: "xrayPath p = dir @ ''/xray/xray''"
    and nd: "nodes fs (dir @ ''/xray/xray'') \<noteq> Some Dir"
    and par: "nodes fs (dir @ ''/xray'') = None \<or> nodes fs (dir @ ''/xray'') = Some Dir"
    and z: "nodes fs ''xray.zip'' = Some (File c m)"
    and perm: "''xray.zip'' \<notin> undeletable fs"
  shows "\<exists>fs'. on_xray_entry p e fs = (Fulfilled True, fs')
           \<and> nodes fs' (dir @ ''/xray/xray'') = Some (File (Raw d) 493)
           \<and> nodes fs' ''xray.zip'' = None"
proof -
  let ?D = "dir @ ''/xray''" and ?X = "dir @ ''/xray/xray''"
  define fs1 where "fs1 = (if nodes fs ?D = None then fs\<lparr>nodes := (nodes fs)(?D \<mapsto> Dir)\<rparr> else fs)"
  have s1: "(if \<not> existsSync fs ?D then mkdirSync ?D fs else Inr fs) = Inr fs1"
    by (simp add: fs1_def existsSync_def mkdirSync_def)
  have s1a: "nodes fs1 ?D = Some Dir" using par by (auto simp: fs1_def)
  have s1b: "nodes fs1 ?X = nodes fs ?X" by (simp add: fs1_def)
  have s1c: "nodes fs1 ''xray.zip'' = nodes fs ''xray.zip''"
    using xrayDir_not_zip [of dir] by (simp add: fs1_def)
  have s1d: "undeletable fs1 = undeletable fs" by (simp add: fs1_def)
  have "parent_is_dir fs1 ?X" by (simp add: parent_is_dir_def path_dirname_xrayPath s1a)
  moreover have "nodes fs1 ?X \<noteq> Some Dir" using nd by (simp add: s1b)
  ultimately obtain fs2 m' where s2: "writeStream ?X (Raw d) fs1 = Inr fs2"
      "nodes fs2 = (nodes fs1)(?X \<mapsto> File (Raw d) m')" "undeletable fs2 = undeletable fs1"
    using writeStream_ok [of fs1 ?X "Raw d"] by blast
  define fs3 where "fs3 = fs2\<lparr>nodes := (nodes fs2)(?X \<mapsto> File (Raw d) 493)\<rparr>"
  have s3: "chmodSync ?X 493 fs2 = Inr fs3"
    by (simp add: chmodSync_def s2 fs3_def)
  have s3z: "nodes fs3 ''xray.zip'' = Some (File c m)"
    using xrayPath_not_zip [of dir] by (simp add: fs3_def s2 s1c z)
  have s3u: "undeletable fs3 = undeletable fs" by (simp add: fs3_def s2 s1d)
  define fs4 where "fs4 = fs3\<lparr>nodes := (nodes fs3)(''xray.zip'' := None)\<rparr>"
  have s4: "unlinkSync ''xray.zip'' fs3 = Inr fs4"
    using perm by (simp add: unlinkSync_def s3z s3u fs4_def)
  have s5: "nodes fs4 ?X = Some (File (Raw d) 493)" "nodes fs4 ''xray.zip'' = None"
    using xrayPath_not_zip [of dir] by (simp_all add: fs4_def fs3_def)
  have "on_xray_entry p e fs = (Fulfilled True, fs4)"
    by (simp only: on_xray_entry_def e x path_dirname_xrayPath s1 s2 s3 s4 zipPath_def
                   sum.case entry_data.case)
  with s5 show ?thesis by blast
qed

lemma readEntry_find:
  "find (\<lambda>e. fileName e = ''xray'') es = Some e \<Longrightarrow> readEntry p es fs = on_xray_entry p e fs"
  by (induction es) (auto split: if_splits)

lemma readEntry_none:
  "find (\<lambda>e. fileName e = ''xray'') es = None \<Longrightarrow> readEntry p es fs = (Pending, fs)"
  by (induction es) (auto split: if_splits)

lemma download_example:
  "downloadFile redirecting_server (getXrayDownloadUrl ''x64'') ''xray.zip'' fresh_fs
     = Some (Fulfilled (),
             fresh_fs\<lparr>nodes := (nodes fresh_fs)(''xray.zip'' \<mapsto> File release_archive 420)\<rparr>)"
proof -
  have 1: "redirected redirecting_server (Suc 0) (getXrayDownloadUrl ''x64'')
             = Some ''https://objects.example/Xray-linux-64.zip''"
    by (simp add: getXrayDownloadUrl_def redirect_of_def redirecting_server_def
                  is_redirect_def truthy_def)
  have 2: "redirect_of redirecting_server ''https://objects.example/Xray-linux-64.zip'' = None"
    by (simp add: redirect_of_def redirecting_server_def is_redirect_def)
  have 3: "settle redirecting_server ''https://objects.example/Xray-linux-64.zip''
             ''xray.zip'' fresh_fs
           = (Fulfilled (),
              fresh_fs\<lparr>nodes := (nodes fresh_fs)(''xray.zip'' \<mapsto> File release_archive 420)\<rparr>)"
    by (simp add: settle_def redirecting_server_def writeStream_def parent_is_dir_def
                  path_dirname_def startsWith_def fresh_fs_def Let_def)
  show ?thesis
    using downloadFile_follows [OF 1, of "''xray.zip''" fresh_fs]
          downloadFile_no_redirect [OF 2, of "''xray.zip''" fresh_fs] 3
    by simp
qed

lemma downloadAndExtract_without_entry:
  assumes "downloadFile server (getXrayDownloadUrl a) ''xray.zip'' fs = Some (Fulfilled (), fs1)"
    and "nodes fs1 ''xray.zip'' = Some (File (Archive es) m)"
    and "find (\<lambda>e. fileName e = ''xray'') es = None"
  shows "downloadAndExtract a server p fs = Some (Pending, fs1)"
  using assms
  by (simp add: downloadAndExtract_def zipPath_def extractXray_def yauzl_open_def readEntry_none)

lemma docs_download:
  "downloadFile docs_server u ''xray.zip'' fresh_fs
     = Some (Fulfilled (),
             fresh_fs\<lparr>nodes := (nodes fresh_fs)(''xray.zip'' \<mapsto> File docs_archive 420)\<rparr>)"
proof -
  have "redirect_of docs_server u = None"
    by (simp add: redirect_of_def docs_server_def is_redirect_def)
  from downloadFile_no_redirect [OF this, of "''xray.zip''" fresh_fs] show ?thesis
    by (simp add: settle_def docs_server_def writeStream_def parent_is_dir_def
                  path_dirname_def startsWith_def fresh_fs_def Let_def)
qed

lemma docs_extract:
  "downloadAndExtract a docs_server p fresh_fs
     = Some (Pending,
             fresh_fs\<lparr>nodes := (nodes fresh_fs)(''xray.zip'' \<mapsto> File docs_archive 420)\<rparr>)"
  by (rule downloadAndExtract_without_entry [OF docs_download, where m = 420 and es =
        "[\<lparr> fileName = ''LICENSE'', payload = Data ''MPL'' \<rparr>,
          \<lparr> fileName = ''README.md'', payload = Data ''# Xray'' \<rparr>,
          \<lparr> fileName = ''geoip.dat'', payload = Data ''GEO'' \<rparr>]"])
     (simp_all add: docs_archive_def)

text \<open>
  C4. When the download has succeeded and the archive it left at \<open>xray.zip\<close> has an entry
  named \<open>xray\<close> whose stream can be read, and the file system lets the program write the
  target (the target path is not a directory, its parent is a directory or does not
  exist yet) and delete the archive, then \<open>downloadAndExtract\<close> is fulfilled with \<open>true\<close>:
  the target path holds the data of that entry with mode \<open>0o755\<close>, and \<open>xray.zip\<close> is gone.
\<close>

theorem downloadAndExtract_installs_engine:
  assumes dl: "downloadFile server (getXrayDownloadUrl arch) ''xray.zip'' fs
                 = Some (Fulfilled (), fs1)"
    and zip: "nodes fs1 ''xray.zip'' = Some (File (Archive es) m)"
    and entry: "find (\<lambda>e. fileName e = ''xray'') es = Some e"
    and data: "payload e = Data d"
    and x: "xrayPath p = dir @ ''/xray/xray''"
    and nd: "nodes fs1 (dir @ ''/xray/xray'') \<noteq> Some Dir"
    and par: "nodes fs1 (dir @ ''/xray'') = None \<or> nodes fs1 (dir @ ''/xray'') = Some Dir"
    and perm: "''xray.zip'' \<notin> undeletable fs1"
  shows "\<exists>fs2. downloadAndExtract arch server p fs = Some (Fulfilled True, fs2)
           \<and> nodes fs2 (xrayPath p) = Some (File (Raw d) 493)
           \<and> nodes fs2 ''xray.zip'' = None"
proof -
  obtain fs2 where fs2: "on_xray_entry p e fs1 = (Fulfilled True, fs2)"
      "nodes fs2 (dir @ ''/xray/xray'') = Some (File (Raw d) 493)"
      "nodes fs2 ''xray.zip'' = None"
    using on_xray_entry_ok [OF data x nd par zip perm] by blast
  have "extractXray p fs1 = (Fulfilled True, fs2)"
    by (simp add: extractXray_def yauzl_open_def zipPath_def zip readEntry_find [OF entry] fs2)
  then have "downloadAndExtract arch server p fs = Some (Fulfilled True, fs2)"
    by (simp add: downloadAndExtract_def zipPath_def dl)
  with fs2 x show ?thesis by simp
qed

theorem downloadAndExtract_installs_engine_witness:
  "\<exists>fs2. downloadAndExtract ''x64'' redirecting_server (proxy idle_host) fresh_fs
            = Some (Fulfilled True, fs2)
         \<and> nodes fs2 ''/home/container/xray/xray'' = Some (File (Raw ''ELF'') 493)
         \<and> nodes fs2 ''xray.zip'' = None"
proof -
  let ?fs1 = "fresh_fs\<lparr>nodes := (nodes fresh_fs)(''xray.zip'' \<mapsto> File release_archive 420)\<rparr>"
  let ?es = "[\<lparr> fileName = ''LICENSE'', payload = Data ''MPL'' \<rparr>,
              \<lparr> fileName = ''README.md'', payload = Data ''# Xray'' \<rparr>,
              \<lparr> fileName = ''xray'', payload = Data ''ELF'' \<rparr>]"
  have zip: "nodes ?fs1 ''xray.zip'' = Some (File (Archive ?es) 420)"
    by (simp add: release_archive_def)
  have entry: "find (\<lambda>e. fileName e = ''xray'') ?es
                 = Some \<lparr> fileName = ''xray'', payload = Data ''ELF'' \<rparr>"
    by simp
  have data: "payload \<lparr> fileName = ''xray'', payload = Data ''ELF'' \<rparr> = Data ''ELF''"
    by simp
  have x: "xrayPath (proxy idle_host) = ''/home/container'' @ ''/xray/xray''"
    by (simp add: idle_host_def XrayProxy_def Let_def)
  have nd: "nodes ?fs1 (''/home/container'' @ ''/xray/xray'') \<noteq> Some Dir"
    by (simp add: fresh_fs_def)
  have par: "nodes ?fs1 (''/home/container'' @ ''/xray'') = None
             \<or> nodes ?fs1 (''/home/container'' @ ''/xray'') = Some Dir"
    by (simp add: fresh_fs_def)
  have perm: "''xray.zip'' \<notin> undeletable ?fs1"
    by (simp add: fresh_fs_def)
  show ?thesis
    using downloadAndExtract_installs_engine [OF download_example zip entry data x nd par perm]
    by (simp add: x)
qed

section \<open>Properties of the JSON functions\<close>

lemma digit_char_props: "d < 10 \<Longrightarrow> is_digit (digit_char d) \<and> digit_val (digit_char d) = d"
  by (simp add: is_digit_def digit_val_def digit_char_def)

lemma digits_of_nonempty: "digits_of n \<noteq> []"
  by (subst digits_of.simps) simp

lemma digits_of_all_digits: "\<forall>c\<in>set (digits_of n). is_digit c"
proof (induction n rule: digits_of.induct)
  case (1 n)
  show ?case
  proof (cases "n < 10")
    case True
    then show ?thesis by (subst digits_of.simps) (simp add: digit_char_props)
  next
    case False
    with 1 show ?thesis by (subst digits_of.simps) (simp add: digit_char_props)
  qed
qed

lemma digit_char_zero: "d < 10 \<Longrightarrow> (digit_char d = CHR ''0'') = (d = 0)"
proof -
  assume d: "d < 10"
  have "digit_val (digit_char d) = d" using d by (simp add: digit_char_props)
  moreover have "digit_val CHR ''0'' = 0" by (simp add: digit_val_def)
  moreover have "digit_char 0 = CHR ''0''" unfolding digit_char_def by code_simp
  ultimately show ?thesis by metis
qed

lemma digits_of_hd: "0 < n \<Longrightarrow> hd (digits_of n) \<noteq> CHR ''0''"
proof (induction n rule: digits_of.induct)
  case (1 n)
  show ?case
  proof (cases "n < 10")
    case True
    with 1(2) show ?thesis by (subst digits_of.simps) (simp add: digit_char_zero)
  next
    case False
    then have "0 < n div 10" by simp
    with 1(1) False have "hd (digits_of (n div 10)) \<noteq> CHR ''0''" by simp
    with False show ?thesis
      by (subst digits_of.simps) (simp add: digits_of_nonempty)
  qed
qed

lemma digits_of_value: "foldl (\<lambda>a c. a * 10 + digit_val c) 0 (digits_of n) = n"
proof (induction n rule: digits_of.induct)
  case (1 n)
  show ?case
  proof (cases "n < 10")
    case True
    then show ?thesis by (subst digits_of.simps) (simp add: digit_char_props)
  next
    case False
    with 1 show ?thesis by (subst digits_of.simps) (simp add: digit_char_props)
  qed
qed

lemma read_nat_digits:
  "\<forall>c\<in>set ds. is_digit c \<Longrightarrow> rest = [] \<or> \<not> is_digit (hd rest) \<Longrightarrow>
     read_nat acc (ds @ rest) = (foldl (\<lambda>a c. a * 10 + digit_val c) acc ds, rest)"
proof (induction ds arbitrary: acc)
  case Nil
  then show ?case by (cases rest) auto
next
  case (Cons d ds)
  then show ?case by simp
qed

lemma read_nat_digits_of:
  "rest = [] \<or> \<not> is_digit (hd rest) \<Longrightarrow> read_nat 0 (digits_of n @ rest) = (n, rest)"
  by (simp add: read_nat_digits digits_of_all_digits digits_of_value)

lemma digits_of_zero: "digits_of 0 = ''0''"
  by (subst digits_of.simps) (simp add: digit_char_def, code_simp)

lemma is_digit_not_minus: "is_digit c \<Longrightarrow> c \<noteq> CHR ''-''"
  by (auto simp: is_digit_def)

lemma parse_digits_core:
  assumes follow: "rest = [] \<or> (\<not> is_digit (hd rest) \<and> hd rest \<notin> {CHR ''.'', CHR ''e'', CHR ''E''})"
  shows "parse_digits g (digits_of n @ rest) = Some (Fin (g n), rest)"
proof (cases "n = 0")
  case True
  with follow show ?thesis by (auto simp: parse_digits_def digits_of_zero is_digit_def)
next
  case False
  obtain c cs where cs: "digits_of n = c # cs"
    using digits_of_nonempty [of n] by (cases "digits_of n") auto
  have d: "is_digit c" using digits_of_all_digits [of n] by (simp add: cs)
  have z: "c \<noteq> CHR ''0''" using digits_of_hd [of n] False by (simp add: cs)
  have r: "read_nat 0 (c # cs @ rest) = (n, rest)"
    using read_nat_digits_of [of rest n] follow by (auto simp: cs simp del: read_nat.simps)
  show ?thesis
    using follow d z r by (auto simp: parse_digits_def cs simp del: read_nat.simps)
qed

lemma parse_number_digits:
  assumes follow: "rest = [] \<or> (\<not> is_digit (hd rest) \<and> hd rest \<notin> {CHR ''.'', CHR ''e'', CHR ''E''})"
  shows "parse_number (Number_toString (Fin i) @ rest) = Some (Fin i, rest)"
proof (cases "i < 0")
  case True
  then show ?thesis
    by (simp add: Number_toString_def parse_number_def parse_digits_core [OF follow])
next
  case False
  obtain c cs where cs: "digits_of (nat i) = c # cs"
    using digits_of_nonempty [of "nat i"] by (cases "digits_of (nat i)") auto
  have d: "is_digit c" using digits_of_all_digits [of "nat i"] by (simp add: cs)
  have "parse_number (c # cs @ rest) = parse_digits int (c # cs @ rest)"
    using is_digit_not_minus [OF d] by (simp add: parse_number_def)
  then have "parse_number (digits_of (nat i) @ rest) = Some (Fin (int (nat i)), rest)"
    using parse_digits_core [OF follow, of int "nat i"] by (simp add: cs)
  with False show ?thesis by (simp add: Number_toString_def)
qed

lemma hexval_hexchar_all: "\<forall>k\<in>set [0..<16]. hexval (hexchar k) = Some k"
  by code_simp

lemma hexval_hexchar: "k < 16 \<Longrightarrow> hexval (hexchar k) = Some k"
  using hexval_hexchar_all by simp

lemma unicode_escape_control:
  assumes "(of_char c :: nat) < 32"
  shows "unicode_escape CHR ''0'' CHR ''0'' (hexchar ((of_char c :: nat) div 16))
           (hexchar ((of_char c :: nat) mod 16)) = Some c"
proof -
  have z: "hexval CHR ''0'' = Some 0" by (simp add: hexval_def)
  have a: "hexval (hexchar ((of_char c :: nat) div 16)) = Some ((of_char c :: nat) div 16)"
    using assms by (intro hexval_hexchar) simp
  have b: "hexval (hexchar ((of_char c :: nat) mod 16)) = Some ((of_char c :: nat) mod 16)"
    by (intro hexval_hexchar) simp
  show ?thesis by (simp add: unicode_escape_def z a b)
qed

lemma parse_chars_quote_char:
  assumes "parse_chars t = Some (s, rest)"
  shows "parse_chars (quote_char c @ t) = Some (c # s, rest)"
proof -
  consider (q) "c = dquote" | (b) "c = backslash"
    | (e) "c \<in> {CHR 0x08, CHR 0x09, CHR 0x0A, CHR 0x0C, CHR 0x0D}"
    | (u) "c \<noteq> dquote" "c \<noteq> backslash" "c \<notin> {CHR 0x08, CHR 0x09, CHR 0x0A, CHR 0x0C, CHR 0x0D}"
          "(of_char c :: nat) < 32"
    | (p) "c \<noteq> dquote" "c \<noteq> backslash" "\<not> (of_char c :: nat) < 32"
    by (cases "(of_char c :: nat) < 32") auto
  then show ?thesis
  proof cases
    case q
    with assms show ?thesis by (simp add: quote_char_def unescape_def)
  next
    case b
    with assms show ?thesis by (simp add: quote_char_def unescape_def)
  next
    case e
    with assms show ?thesis by (auto simp: quote_char_def unescape_def)
  next
    case u
    with assms unicode_escape_control [OF u(4)] show ?thesis by (simp add: quote_char_def)
  next
    case p
    then have "quote_char c = [c]" by (auto simp: quote_char_def)
    with assms p show ?thesis by simp
  qed
qed

lemma parse_chars_quoted:
  "parse_chars (concat (map quote_char s) @ dquote # rest) = Some (s, rest)"
  by (induction s) (simp_all add: parse_chars_quote_char)

lemma skip_ws_spaces: "skip_ws (replicate k CHR '' '' @ s) = skip_ws s"
  by (induction k) (simp_all add: skip_ws_def is_ws_def)

lemma skip_ws_indent: "skip_ws (indent n @ s) = skip_ws s"
  by (simp add: indent_def skip_ws_spaces)

lemma skip_ws_newline: "skip_ws (newline # s) = skip_ws s"
  by (simp add: skip_ws_def is_ws_def)

lemma skip_ws_space: "skip_ws (CHR '' '' # s) = skip_ws s"
  by (simp add: skip_ws_def is_ws_def)

lemma skip_ws_start: "\<not> is_ws c \<Longrightarrow> skip_ws (c # s) = c # s"
  by (simp add: skip_ws_def)

lemma value_start_not_ws: "value_start c \<Longrightarrow> \<not> is_ws c"
  by (auto simp: value_start_def is_ws_def is_digit_def)

lemma value_start_not_close:
  "value_start c \<Longrightarrow> c \<noteq> CHR '']'' \<and> c \<noteq> CHR ''}'' \<and> c \<noteq> CHR '','' \<and> c \<noteq> CHR '':''"
  by (auto simp: value_start_def is_digit_def)

lemma Number_toString_start: "\<exists>c cs. Number_toString (Fin i) = c # cs \<and> (c = CHR ''-'' \<or> is_digit c)"
proof (cases "i < 0")
  case True
  then show ?thesis by (simp add: Number_toString_def)
next
  case False
  obtain c cs where cs: "digits_of (nat i) = c # cs"
    using digits_of_nonempty [of "nat i"] by (cases "digits_of (nat i)") auto
  have "is_digit c" using digits_of_all_digits [of "nat i"] by (simp add: cs)
  with False cs show ?thesis by (simp add: Number_toString_def)
qed

lemma ser_start: "\<exists>c cs. ser level v = c # cs \<and> value_start c"
proof (cases v)
  case JNull
  then show ?thesis by (simp add: value_start_def)
next
  case (JBool b)
  then show ?thesis by (simp add: value_start_def)
next
  case (JNum x)
  show ?thesis
  proof (cases x)
    case NaN
    with JNum show ?thesis by (simp add: value_start_def)
  next
    case (Fin i)
    with JNum Number_toString_start [of i] show ?thesis by (auto simp: value_start_def)
  qed
next
  case (JStr s)
  then show ?thesis by (simp add: value_start_def QuoteJSONString_def)
next
  case (JArr xs)
  then show ?thesis by (cases xs) (simp_all add: value_start_def)
next
  case (JObj ms)
  then show ?thesis by (cases ms) (simp_all add: value_start_def)
qed

lemma skip_ws_ser: "skip_ws (ser level v @ s) = ser level v @ s"
  using ser_start [of level v] by (auto simp: skip_ws_start value_start_not_ws)

lemma ser_elems_start: "\<exists>c cs. ser_elems level (x # xs) = c # cs \<and> value_start c"
  using ser_start [of level x] by (cases xs) auto

lemma ser_members_start: "\<exists>cs. ser_members level (m # ms) = dquote # cs"
  by (cases m; cases ms) (simp_all add: QuoteJSONString_def)

lemma ends_number_sep: "ends_number (CHR '','' # s)" "ends_number (newline # s)"
  by (simp_all add: ends_number_def is_digit_def)

lemma digit_not_open: "is_digit c \<Longrightarrow> c \<noteq> CHR ''{'' \<and> c \<noteq> CHR ''['' \<and> c \<noteq> dquote"
  by (auto simp: is_digit_def)

lemma parse_value_number:
  assumes "ends_number rest"
  shows "parse_value (Suc f) (Number_toString (Fin i) @ rest) = Some (JNum (Fin i), rest)"
proof -
  obtain c cs where cs: "Number_toString (Fin i) = c # cs" "c = CHR ''-'' \<or> is_digit c"
    using Number_toString_start [of i] by blast
  have n: "parse_number (c # cs @ rest) = Some (Fin i, rest)"
    using parse_number_digits [of rest i] assms by (simp add: cs ends_number_def)
  from cs(2) digit_not_open [of c] show ?thesis
    by (auto simp: cs(1) n)
qed

lemma parse_value_string:
  "parse_value (Suc f) (QuoteJSONString s @ rest) = Some (JStr s, rest)"
  by (simp add: QuoteJSONString_def parse_chars_quoted)

lemma parse_ser:
  "finite_numbers v \<Longrightarrow> calls v \<le> f \<Longrightarrow> ends_number rest \<Longrightarrow>
     parse_value f (ser level v @ rest) = Some (v, rest)"
  "xs \<noteq> [] \<Longrightarrow> finite_numbers_list xs \<Longrightarrow> calls_list xs \<le> f \<Longrightarrow>
     parse_elements f (ser_elems level xs @ newline # indent k @ CHR '']'' # rest)
       = Some (xs, rest)"
  "ms \<noteq> [] \<Longrightarrow> finite_numbers_members ms \<Longrightarrow> calls_members ms \<le> f \<Longrightarrow>
     parse_members f (ser_members level ms @ newline # indent k @ CHR ''}'' # rest)
       = Some (ms, rest)"
proof (induction level v and level xs and level ms arbitrary: f rest and f rest k and f rest k
       rule: ser_ser_elems_ser_members.induct)
  case (1 level)
  then obtain f' where "f = Suc f'" by (cases f) auto
  then show ?case by (simp add: is_digit_def)
next
  case (2 level b)
  then obtain f' where "f = Suc f'" by (cases f) auto
  then show ?case by (simp add: is_digit_def)
next
  case (3 level x)
  then obtain f' where f: "f = Suc f'" by (cases f) auto
  from 3 obtain i where "x = Fin i" by (cases x) auto
  with 3 show ?case by (simp add: f parse_value_number del: parse_value.simps)
next
  case (4 level s)
  then obtain f' where f: "f = Suc f'" by (cases f) auto
  show ?case by (simp add: f parse_value_string del: parse_value.simps)
next
  case (5 level)
  then obtain f' where "f = Suc f'" by (cases f) auto
  then show ?case by (simp add: skip_ws_def is_ws_def)
next
  case (6 level x xs)
  then obtain f' where f: "f = Suc f'" by (cases f) auto
  obtain c cs where cs: "ser_elems (Suc level) (x # xs) = c # cs" "value_start c"
    using ser_elems_start [of "Suc level" x xs] by blast
  have e: "parse_elements f' (c # cs @ newline # indent level @ CHR '']'' # rest)
             = Some (x # xs, rest)"
    using "6.IH" [of f' level rest] "6.prems" by (simp add: f cs)
  have sk: "skip_ws (newline # indent (Suc level) @ c # cs @ newline # indent level @ CHR '']'' # rest)
              = c # cs @ newline # indent level @ CHR '']'' # rest"
    using cs(2) by (simp add: skip_ws_newline skip_ws_indent skip_ws_start value_start_not_ws)
  show ?case
    using value_start_not_close [OF cs(2)]
    by (simp add: f cs(1) sk e del: parse_elements.simps)
next
  case (7 level)
  then obtain f' where "f = Suc f'" by (cases f) auto
  then show ?case by (simp add: skip_ws_def is_ws_def)
next
  case (8 level m ms)
  then obtain f' where f: "f = Suc f'" by (cases f) auto
  obtain cs where cs: "ser_members (Suc level) (m # ms) = dquote # cs"
    using ser_members_start [of "Suc level" m ms] by blast
  have e: "parse_members f' (dquote # cs @ newline # indent level @ CHR ''}'' # rest)
             = Some (m # ms, rest)"
    using "8.IH" [of f' level rest] "8.prems" by (simp add: f cs)
  have sk: "skip_ws (newline # indent (Suc level) @ dquote # cs @ newline # indent level @ CHR ''}'' # rest)
              = dquote # cs @ newline # indent level @ CHR ''}'' # rest"
    by (simp add: skip_ws_newline skip_ws_indent skip_ws_start is_ws_def)
  show ?case
    by (simp add: f cs sk e del: parse_members.simps)
next
  case (9 level)
  then show ?case by simp
next
  case (10 level x)
  then obtain f' where f: "f = Suc f'" by (cases f) auto
  have v: "parse_value f' (ser level x @ newline # indent k @ CHR '']'' # rest)
             = Some (x, newline # indent k @ CHR '']'' # rest)"
    using "10.IH" [of f' "newline # indent k @ CHR '']'' # rest"] "10.prems"
    by (simp add: f ends_number_sep)
  have sk: "skip_ws (newline # indent k @ CHR '']'' # rest) = CHR '']'' # rest"
    by (simp add: skip_ws_newline skip_ws_indent skip_ws_start is_ws_def)
  show ?case by (simp add: f v sk del: parse_value.simps)
next
  case (11 level x y ys)
  then obtain f' where f: "f = Suc f'" by (cases f) auto
  let ?tail = "ser_elems level (y # ys) @ newline # indent k @ CHR '']'' # rest"
  have v: "parse_value f' (ser level x @ CHR '','' # newline # indent level @ ?tail)
             = Some (x, CHR '','' # newline # indent level @ ?tail)"
    using "11.IH"(1) [of f' "CHR '','' # newline # indent level @ ?tail"] "11.prems"
    by (simp add: f ends_number_sep)
  obtain c cs where cs: "ser_elems level (y # ys) = c # cs" "value_start c"
    using ser_elems_start [of level y ys] by blast
  have sk: "skip_ws (newline # indent level @ ?tail) = ?tail"
    using cs(2) by (simp add: cs(1) skip_ws_newline skip_ws_indent skip_ws_start value_start_not_ws)
  have e: "parse_elements f' ?tail = Some (y # ys, rest)"
    using "11.IH"(2) [of f' k rest] "11.prems" by (simp add: f)
  show ?case
    by (simp add: f v skip_ws_start is_ws_def sk e del: parse_value.simps)
next
  case (12 level)
  then show ?case by simp
next
  case (13 level k v)
  then obtain f' where f: "f = Suc f'" by (cases f) auto
  let ?after = "newline # indent k @ CHR ''}'' # rest"
  have v: "parse_value f' (ser level v @ ?after) = Some (v, ?after)"
    using "13.IH" [of f' ?after] "13.prems" by (simp add: f ends_number_sep)
  have sk: "skip_ws ?after = CHR ''}'' # rest"
    by (simp add: skip_ws_newline skip_ws_indent skip_ws_start is_ws_def)
  show ?case
    by (simp add: f QuoteJSONString_def parse_chars_quoted skip_ws_start skip_ws_space is_ws_def
                  skip_ws_ser v sk del: parse_value.simps)
next
  case (14 level k v m ms)
  then obtain f' where f: "f = Suc f'" by (cases f) auto
  let ?tail = "ser_members level (m # ms) @ newline # indent k @ CHR ''}'' # rest"
  have v: "parse_value f' (ser level v @ CHR '','' # newline # indent level @ ?tail)
             = Some (v, CHR '','' # newline # indent level @ ?tail)"
    using "14.IH"(1) [of f' "CHR '','' # newline # indent level @ ?tail"] "14.prems"
    by (simp add: f ends_number_sep)
  obtain cs where cs: "ser_members level (m # ms) = dquote # cs"
    using ser_members_start [of level m ms] by blast
  have sk: "skip_ws (newline # indent level @ ?tail) = ?tail"
    by (simp add: cs skip_ws_newline skip_ws_indent skip_ws_start is_ws_def)
  have e: "parse_members f' ?tail = Some ((m # ms), rest)"
    using "14.IH"(2) [of f' k rest] "14.prems" by (simp add: f)
  show ?case
    by (simp add: f QuoteJSONString_def parse_chars_quoted skip_ws_start skip_ws_space is_ws_def
                  skip_ws_ser v sk e del: parse_value.simps)
qed

lemma calls_le_length:
  "calls v \<le> length (ser level v)"
  "xs \<noteq> [] \<Longrightarrow> calls_list xs \<le> Suc (length (ser_elems level xs))"
  "ms \<noteq> [] \<Longrightarrow> calls_members ms \<le> Suc (length (ser_members level ms))"
proof (induction level v and level xs and level ms rule: ser_ser_elems_ser_members.induct)
  case (3 level x)
  show ?case
  proof (cases x)
    case NaN
    then show ?thesis by simp
  next
    case (Fin i)
    with Number_toString_start [of i] show ?thesis by auto
  qed
next
  case (4 level s)
  show ?case by (simp add: QuoteJSONString_def)
qed (auto simp: QuoteJSONString_def)

lemma JSON_parse_stringify:
  assumes "finite_numbers v"
  shows "JSON_parse (JSON_stringify v) = Some v"
proof -
  have 1: "skip_ws (ser 0 v) = ser 0 v"
    using skip_ws_ser [of 0 v "[]"] by simp
  have 2: "parse_value (Suc (length (ser 0 v))) (ser 0 v @ []) = Some (v, [])"
    using calls_le_length(1) [of v 0]
    by (intro parse_ser(1) assms) (simp_all add: ends_number_def)
  have 3: "skip_ws [] = []" by (simp add: skip_ws_def)
  show ?thesis
    using 2 by (simp add: JSON_parse_def JSON_stringify_def 1 3 del: parse_value.simps)
qed

section \<open>Properties of the configuration file\<close>

lemma config_finite: "port p = Fin n \<Longrightarrow> finite_numbers (config p)"
  by (simp add: config_def)

text \<open>
  C6. For every proxy object whose port is an integer and every file system on which the
  write of \<open>config.json\<close> succeeds, the text that \<open>generateConfig\<close> leaves in
  \<open>config.json\<close> is accepted by \<open>JSON.parse\<close>, and the document parsed back has exactly
  one inbound entry: its port is the port of the object, its listener is bound to
  \<open>0.0.0.0\<close>, and its settings have exactly one client, whose id is the identifier of
  the object.
\<close>

theorem generateConfig_parsed_back:
  assumes prt: "port p = Fin n"
    and written: "generateConfig p fs = Inr fs'"
  shows "\<exists>text m doc inbound settings client.
           nodes fs' ''config.json'' = Some (File (Raw text) m)
         \<and> JSON_parse text = Some doc
         \<and> get_prop doc ''inbounds'' = Some (JArr [inbound])
         \<and> get_prop inbound ''port'' = Some (JNum (Fin n))
         \<and> get_prop inbound ''listen'' = Some (JStr ''0.0.0.0'')
         \<and> get_prop inbound ''settings'' = Some settings
         \<and> get_prop settings ''clients'' = Some (JArr [client])
         \<and> get_prop client ''id'' = Some (JStr (uuid p))"
proof -
  let ?text = "JSON_stringify (config p)"
  have "\<exists>m. nodes fs' ''config.json'' = Some (File (Raw ?text) m)"
    using written
    by (auto simp: generateConfig_def writeFileSync_def writeStream_def
             split: if_splits option.splits node.splits)
  then obtain m where 1: "nodes fs' ''config.json'' = Some (File (Raw ?text) m)" by blast
  have 2: "JSON_parse ?text = Some (config p)"
    by (rule JSON_parse_stringify) (rule config_finite [OF prt])
  let ?client = "JObj [(''id'', JStr (uuid p)), (''level'', JNum (Fin 0))]"
  let ?settings = "JObj [(''clients'', JArr [?client]), (''decryption'', JStr ''none'')]"
  let ?inbound = "JObj
           [(''port'', JNum (port p)),
            (''listen'', JStr ''0.0.0.0''),
            (''protocol'', JStr ''vless''),
            (''settings'', ?settings),
            (''streamSettings'',
             JObj
              [(''network'', JStr ''ws''),
               (''security'', JStr ''none''),
               (''wsSettings'',
                JObj
                 [(''path'', JStr (path p)),
                  (''headers'', JObj [(''Host'', JStr (domain p))])])])]"
  have 3: "get_prop (config p) ''inbounds'' = Some (JArr [?inbound])"
    by (simp add: config_def get_prop_def)
  have 4: "get_prop ?inbound ''port'' = Some (JNum (Fin n))"
    by (simp add: get_prop_def prt)
  have 5: "get_prop ?inbound ''listen'' = Some (JStr ''0.0.0.0'')"
    by (simp add: get_prop_def)
  have 6: "get_prop ?inbound ''settings'' = Some ?settings"
    by (simp add: get_prop_def)
  have 7: "get_prop ?settings ''clients'' = Some (JArr [?client])"
    by (simp add: get_prop_def)
  have 8: "get_prop ?client ''id'' = Some (JStr (uuid p))"
    by (simp add: get_prop_def)
  from 1 2 3 4 5 6 7 8 show ?thesis by blast
qed

theorem generateConfig_parsed_back_witness:
  "\<exists>text m doc inbound settings client.
      nodes (projr (generateConfig (proxy idle_host) fresh_fs)) ''config.json''
        = Some (File (Raw text) m)
    \<and> JSON_parse text = Some doc
    \<and> get_prop doc ''inbounds'' = Some (JArr [inbound])
    \<and> get_prop inbound ''port'' = Some (JNum (Fin 25565))
    \<and> get_prop inbound ''listen'' = Some (JStr ''0.0.0.0'')
    \<and> get_prop inbound ''settings'' = Some settings
    \<and> get_prop settings ''clients'' = Some (JArr [client])
    \<and> get_prop client ''id'' = Some (JStr ''u'')"
proof -
  have prt: "port (proxy idle_host) = Fin 25565"
    by (simp add: idle_host_def XrayProxy_def Let_def)
  have uid: "uuid (proxy idle_host) = ''u''"
    by (simp add: idle_host_def XrayProxy_def Let_def truthy_def)
  have written: "generateConfig (proxy idle_host) fresh_fs
                   = Inr (projr (generateConfig (proxy idle_host) fresh_fs))"
    by (simp add: generateConfig_def writeFileSync_def writeStream_def parent_is_dir_def
                  path_dirname_def startsWith_def fresh_fs_def Let_def)
  show ?thesis
    using generateConfig_parsed_back [OF prt written] by (simp add: uid)
qed

section \<open>Properties of the lookup of the provider\<close>

lemma source_of_attempt:
  "source_url (apiSources jp ! ((n - 1) mod length (apiSources jp))) = attempt_url n"
  "source_parse (apiSources jp ! ((n - 1) mod length (apiSources jp))) = attempt_parse jp n"
proof -
  have len: "length (apiSources jp) = 2" by (simp add: apiSources_def)
  have nth: "source_url (apiSources jp ! 0) = ''https://api.ip.sb/geoip''"
    "source_parse (apiSources jp ! 0) = parse_geoip jp"
    "source_url (apiSources jp ! 1) = ''https://www.cloudflare.com/cdn-cgi/trace''"
    "source_parse (apiSources jp ! 1) = parse_trace"
    by (simp_all add: apiSources_def)
  consider (even) "(n - 1) mod 2 = 0" | (odd) "(n - 1) mod 2 = 1" by arith
  then have "source_url (apiSources jp ! ((n - 1) mod 2)) = attempt_url n
           \<and> source_parse (apiSources jp ! ((n - 1) mod 2)) = attempt_parse jp n"
  proof cases
    case even
    show ?thesis unfolding attempt_url_def attempt_parse_def even by (simp only: nth if_True simp_thms)
  next
    case odd
    show ?thesis unfolding attempt_url_def attempt_parse_def odd by (simp only: nth) simp
  qed
  then show "source_url (apiSources jp ! ((n - 1) mod length (apiSources jp))) = attempt_url n"
    and "source_parse (apiSources jp ! ((n - 1) mod length (apiSources jp))) = attempt_parse jp n"
    unfolding len by simp_all
qed

lemma getISP_loop_step:
  "getISP_loop jp net retries n tr =
     (if n \<le> retries then
        (case net n (attempt_url n) of
           Body data \<Rightarrow>
             (case attempt_parse jp n data of
                Inl e \<Rightarrow> (Uncaught e, tr @ [Request (attempt_url n)])
              | Inr isp \<Rightarrow> (Fulfilled (Some isp), tr @ [Request (attempt_url n)]))
         | ReqError e \<Rightarrow>
             if n = retries then (Fulfilled (Some ''Unknown''), tr @ [Request (attempt_url n)])
             else getISP_loop jp net retries (n + 1) (tr @ [Request (attempt_url n), Wait 1000])
         | ReqTimeout \<Rightarrow>
             if n = retries then (Fulfilled (Some ''Unknown''), tr @ [Request (attempt_url n)])
             else getISP_loop jp net retries (n + 1) (tr @ [Request (attempt_url n), Wait 1000]))
      else (Fulfilled None, tr))"
  by (subst getISP_loop.simps)
     (auto simp: Let_def source_of_attempt simp del: One_nat_def
           split: http_reply.splits sum.splits)

lemma failed_attempts_Suc:
  "a \<le> n \<Longrightarrow> failed_attempts a (Suc n) = failed_attempts a n @ [Request (attempt_url n), Wait 1000]"
  by (simp add: failed_attempts_def)

lemma getISP_loop_skips_failures:
  assumes "a \<le> n" and "n \<le> retries"
    and "\<forall>k. a \<le> k \<and> k < n \<longrightarrow> request_failed (net k (attempt_url k))"
  shows "getISP_loop jp net retries a tr = getISP_loop jp net retries n (tr @ failed_attempts a n)"
  using assms
proof (induction n rule: dec_induct)
  case base
  show ?case by (simp add: failed_attempts_def)
next
  case (step n)
  then have f: "request_failed (net n (attempt_url n))" and lt: "n < retries" by auto
  have "getISP_loop jp net retries a tr = getISP_loop jp net retries n (tr @ failed_attempts a n)"
    using step by auto
  also have "\<dots> = getISP_loop jp net retries (Suc n)
                     (tr @ failed_attempts a n @ [Request (attempt_url n), Wait 1000])"
    using f lt
    by (subst getISP_loop_step) (auto simp: request_failed_def split: http_reply.splits)
  finally show ?case using step.hyps by (simp add: failed_attempts_Suc)
qed

lemma getISP_returns_Unknown_after_request_failures:
  assumes "1 \<le> retries"
    and "\<forall>k. 1 \<le> k \<and> k \<le> retries \<longrightarrow> request_failed (net k (attempt_url k))"
  shows "getISP jp net retries
           = (Fulfilled (Some ''Unknown''),
              failed_attempts 1 retries @ [Request (attempt_url retries)])"
proof -
  have "getISP jp net retries = getISP_loop jp net retries retries ([] @ failed_attempts 1 retries)"
    unfolding getISP_def using assms
    by (intro getISP_loop_skips_failures) auto
  also have "\<dots> = (Fulfilled (Some ''Unknown''),
                     failed_attempts 1 retries @ [Request (attempt_url retries)])"
    using assms(2) [rule_format, of retries] assms(1)
    by (subst getISP_loop_step) (auto simp: request_failed_def split: http_reply.splits)
  finally show ?thesis .
qed

lemma getISP_ends_at_first_response:
  assumes "1 \<le> n" and "n \<le> retries"
    and "\<forall>k. 1 \<le> k \<and> k < n \<longrightarrow> request_failed (net k (attempt_url k))"
    and "net n (attempt_url n) = Body data"
  shows "getISP jp net retries
           = (case attempt_parse jp n data of
                Inl e \<Rightarrow> Uncaught e
              | Inr isp \<Rightarrow> Fulfilled (Some isp),
              failed_attempts 1 n @ [Request (attempt_url n)])"
proof -
  have "getISP jp net retries = getISP_loop jp net retries n ([] @ failed_attempts 1 n)"
    unfolding getISP_def using assms(1,2,3)
    by (intro getISP_loop_skips_failures) auto
  also have "\<dots> = (case attempt_parse jp n data of
                       Inl e \<Rightarrow> Uncaught e
                     | Inr isp \<Rightarrow> Fulfilled (Some isp),
                     failed_attempts 1 n @ [Request (attempt_url n)])"
    using assms(2,4)
    by (subst getISP_loop_step) (auto split: sum.splits)
  finally show ?thesis .
qed

lemma getISP_returns_first_parsed_label:
  assumes "1 \<le> n" and "n \<le> retries"
    and "\<forall>k. 1 \<le> k \<and> k < n \<longrightarrow> request_failed (net k (attempt_url k))"
    and "net n (attempt_url n) = Body data"
    and "attempt_parse jp n data = Inr label"
  shows "getISP jp net retries
           = (Fulfilled (Some label), failed_attempts 1 n @ [Request (attempt_url n)])"
  using getISP_ends_at_first_response [of n retries net data jp] assms by simp

lemma getISP_first_parse_failure:
  assumes "1 \<le> retries" and "net 1 ''https://api.ip.sb/geoip'' = Body data" and "jp data = None"
  shows "getISP jp net retries = (Uncaught ''SyntaxError'', [Request ''https://api.ip.sb/geoip''])"
  using assms unfolding getISP_def
  by (subst getISP_loop.simps) (simp add: apiSources_def parse_geoip_def Let_def)

lemma JSON_parse_html: "JSON_parse ''<html><body>429 Too Many Requests</body></html>'' = None"
  by (simp add: JSON_parse_def skip_ws_def is_ws_def is_digit_def)

lemma panel_isp:
  "getISP JSON_parse (isp_network panel) 3
     = (Fulfilled (Some ''DE-Example_Net''),
        [Request ''https://api.ip.sb/geoip'', Wait 1000,
         Request ''https://www.cloudflare.com/cdn-cgi/trace''])"
  by code_simp

text \<open>
  C2 fails on the code when a response cannot be parsed. The first source answers the
  first request with a page that is not JSON: \<open>JSON.parse\<close> raises inside the listener
  of \<open>end\<close>, the exception is uncaught, and no backoff, no second attempt and no
  \<open>Unknown\<close> follow.
\<close>

theorem getISP_parse_failure_is_uncaught:
  "getISP JSON_parse (\<lambda>n u. Body ''<html><body>429 Too Many Requests</body></html>'') 3
     = (Uncaught ''SyntaxError'', [Request ''https://api.ip.sb/geoip''])"
  using getISP_first_parse_failure
          [of 3 "\<lambda>n u. Body ''<html><body>429 Too Many Requests</body></html>''"
              "''<html><body>429 Too Many Requests</body></html>''" JSON_parse]
        JSON_parse_html
  by simp

section \<open>Properties of the main function\<close>

lemma XrayProxy_fields:
  "process (XrayProxy md5 rnd dir w dmn uid prt nm) = None"
  "xrayPath (XrayProxy md5 rnd dir w dmn uid prt nm) = dir @ ''/xray/xray''"
  "port (XrayProxy md5 rnd dir w dmn uid prt nm) = prt"
  by (simp_all add: XrayProxy_def Let_def)

lemma panel_without_engine_detect: "detectEnvironment panel_without_engine = Some (''1.2.3.4'', Fin 25565)"
  by (simp add: detectEnvironment_def panel_without_engine_def panel_def or_default_def truthy_def
        parseInt_def js_space_def is_digit_def digit_val_def Let_def)
lemma panel_without_engine_constants: "PORT panel_without_engine = []"
  "WSPATH panel_without_engine = []"
  "DOMAIN panel_without_engine = ''example.com''"
  "UUID panel_without_engine = ''1b4e28ba-2fa1-11d2-883f-0016d3cca427''"
  "NAME panel_without_engine = ''Panel''"
  by (simp_all add: panel_without_engine_def panel_def PORT_def WSPATH_def
        DOMAIN_def UUID_def NAME_def or_default_def truthy_def)
lemma panel_without_engine_fields:
  "json_parser panel_without_engine = JSON_parse"
  "isp_network panel_without_engine = isp_network panel"
  "download_network panel_without_engine = docs_server"
  "disk panel_without_engine = fresh_fs"
  "os_arch panel_without_engine = ''x64''"
  "script_dir panel_without_engine = ''/home/container''"
  by (simp_all add: panel_without_engine_def panel_def)

text \<open>
  C3 fails on the code in its first part. The network serves an archive with three
  entries, none of them named \<open>xray\<close>. The download is fulfilled and every entry is
  read and skipped; then the archive emits \<open>end\<close>, for which nothing is registered, and
  the promise of \<open>downloadAndExtract\<close> is never settled: no failure is returned to
  \<open>main\<close>, which waits forever. The rest of the claim holds there: no configuration and
  no link are written, no engine is started, nothing is at the target path; the archive
  stays on disk.
\<close>

theorem missing_entry_is_never_reported:
  "\<exists>h. main panel_without_engine = Some (Ran Pending h)
       \<and> downloadAndExtract ''x64'' docs_server (proxy h) fresh_fs = Some (Pending, files h)
       \<and> exited h = None
       \<and> process (proxy h) = None
       \<and> nodes (files h) ''xray.zip'' = Some (File docs_archive 420)
       \<and> nodes (files h) ''config.json'' = None
       \<and> nodes (files h) ''vless_xray_links.txt'' = None
       \<and> nodes (files h) (xrayPath (proxy h)) = None"
proof -
  define P where "P = XrayProxy (md5_digest panel_without_engine) (random_uuid panel_without_engine)
      ''/home/container'' [] ''example.com'' ''1b4e28ba-2fa1-11d2-883f-0016d3cca427''
      (Fin 25565) ''Panel''"
  define fs1 where
    "fs1 = fresh_fs\<lparr>nodes := (nodes fresh_fs)(''xray.zip'' \<mapsto> File docs_archive 420)\<rparr>"
  define H where "H = \<lparr> proxy = P, files = fs1, handlers = [SIGINT, SIGTERM],
                         exited = None, cleanup_runs = 0 \<rparr>"
  have ex: "downloadAndExtract ''x64'' docs_server P fresh_fs = Some (Pending, fs1)"
    unfolding fs1_def by (rule docs_extract)
  have m: "main panel_without_engine = Some (Ran Pending H)"
    by (simp add: main_def panel_without_engine_detect panel_without_engine_constants
                  panel_without_engine_fields panel_isp Let_def
                  setupSignalHandlers_def P_def [symmetric] ex H_def)
  have p: "process P = None" "xrayPath P = ''/home/container/xray/xray''"
    by (simp_all add: P_def XrayProxy_fields)
  have f: "nodes fs1 ''xray.zip'' = Some (File docs_archive 420)"
      "nodes fs1 ''config.json'' = None" "nodes fs1 ''vless_xray_links.txt'' = None"
      "nodes fs1 ''/home/container/xray/xray'' = None"
    by (simp_all add: fs1_def fresh_fs_def)
  have "main panel_without_engine = Some (Ran Pending H)
       \<and> downloadAndExtract ''x64'' docs_server (proxy H) fresh_fs = Some (Pending, files H)
       \<and> exited H = None
       \<and> process (proxy H) = None
       \<and> nodes (files H) ''xray.zip'' = Some (File docs_archive 420)
       \<and> nodes (files H) ''config.json'' = None
       \<and> nodes (files H) ''vless_xray_links.txt'' = None
       \<and> nodes (files H) (xrayPath (proxy H)) = None"
    using m ex p f by (simp add: H_def)
  then show ?thesis by blast
qed

section \<open>Properties of the termination of the host\<close>

lemma main_registers_handlers:
  "main E = Some (Ran r h) \<Longrightarrow> handlers h = [SIGINT, SIGTERM]"
  by (auto simp: main_def Let_def setupSignalHandlers_def
           split: option.splits prod.splits outcome.splits sum.splits if_splits)

lemma panel_without_engine_run:
  "main panel_without_engine
     = Some (Ran Pending
         ((setupSignalHandlers
            \<lparr> proxy = XrayProxy (\<lambda>s. 0) ''9f0c5c64-3a0b-4d6e-8a43-0d6b1f0a7c11''
                        ''/home/container'' [] ''example.com''
                        ''1b4e28ba-2fa1-11d2-883f-0016d3cca427'' (Fin 25565) ''Panel'',
              files = fresh_fs, handlers = [], exited = None, cleanup_runs = 0 \<rparr>)
          \<lparr>files := fresh_fs\<lparr>nodes := (nodes fresh_fs)(''xray.zip'' \<mapsto> File docs_archive 420)\<rparr>\<rparr>))"
proof -
  have e: "md5_digest panel_without_engine = (\<lambda>s. 0)"
      "random_uuid panel_without_engine = ''9f0c5c64-3a0b-4d6e-8a43-0d6b1f0a7c11''"
    by (simp_all add: panel_without_engine_def panel_def)
  have p: "proxy (setupSignalHandlers h) = proxy h" "files (setupSignalHandlers h) = files h" for h
    by (simp_all add: setupSignalHandlers_def)
  show ?thesis
    by (simp add: main_def panel_without_engine_detect panel_without_engine_constants
                  panel_without_engine_fields panel_isp Let_def e p docs_extract)
qed

lemma running_host_fields:
  "exited running_host = None"
  "handlers running_host = [SIGINT, SIGTERM]"
  "cleanup_runs running_host = 0"
  "map_option received (process (proxy running_host)) = Some []"
  "nodes (files running_host) ''config.json'' = Some (File (Raw ''{}'') 420)"
  "nodes (files running_host) ''vless_xray_links.txt'' = Some (File (Raw ''dmxlc3M='') 420)"
  "''config.json'' \<notin> undeletable (files running_host)"
  "''vless_xray_links.txt'' \<notin> undeletable (files running_host)"
  by (simp_all add: running_host_def setupSignalHandlers_def)

text \<open>
  C1, as the code has it. The constructor registers \<open>cleanupAndExit\<close> for \<open>SIGINT\<close> and
  \<open>SIGTERM\<close> and for nothing else (\<open>setupSignalHandlers\<close>), and every host that \<open>main\<close>
  leaves has exactly these two registered. Take a live host on which nothing is
  registered, construct the supervisor on it, and let the proxy object and the files
  become whatever the run makes of them. When that host receives \<open>SIGINT\<close> or \<open>SIGTERM\<close>
  it runs \<open>cleanup\<close> once and exits with status 0, and nothing that happens afterwards
  runs it again: the child, if one was started, has received one \<open>SIGTERM\<close>, and each of
  \<open>xray.zip\<close>, \<open>config.json\<close> and \<open>vless_xray_links.txt\<close> that named a deletable file
  names nothing, while every other path is as it was. When the host ends because its
  event loop has drained, or by any other signal, no cleanup runs: the proxy object and
  the files are as they were.
\<close>

theorem signal_runs_cleanup_once:
  assumes unregistered: "handlers h0 = []"
    and live: "exited h0 = None"
    and sg: "sg = SIGINT \<or> sg = SIGTERM"
  shows "handlers (setupSignalHandlers h0) = [SIGINT, SIGTERM]
     \<and> (main E = Some (Ran r hm) \<longrightarrow> handlers hm = [SIGINT, SIGTERM])
     \<and> exited (deliver_all (Signal sg # evs) ((setupSignalHandlers h0)\<lparr>proxy := p, files := fs\<rparr>))
           = Some (Code 0)
     \<and> cleanup_runs
           (deliver_all (Signal sg # evs) ((setupSignalHandlers h0)\<lparr>proxy := p, files := fs\<rparr>))
           = Suc (cleanup_runs h0)
     \<and> process (proxy
           (deliver_all (Signal sg # evs) ((setupSignalHandlers h0)\<lparr>proxy := p, files := fs\<rparr>)))
           = map_option (\<lambda>c. c\<lparr>received := received c @ [SIGTERM]\<rparr>) (process p)
     \<and> (\<forall>g. nodes (files
           (deliver_all (Signal sg # evs) ((setupSignalHandlers h0)\<lparr>proxy := p, files := fs\<rparr>))) g
           = (if g \<in> {''xray.zip'', ''config.json'', ''vless_xray_links.txt''} \<and> deletable fs g
              then None else nodes fs g))
     \<and> deliver_all (Drained # evs) ((setupSignalHandlers h0)\<lparr>proxy := p, files := fs\<rparr>)
           = (setupSignalHandlers h0)\<lparr>proxy := p, files := fs, exited := Some (Code 0)\<rparr>
     \<and> (sg' \<noteq> SIGINT \<and> sg' \<noteq> SIGTERM \<longrightarrow>
           deliver_all (Signal sg' # evs) ((setupSignalHandlers h0)\<lparr>proxy := p, files := fs\<rparr>)
           = (setupSignalHandlers h0)\<lparr>proxy := p, files := fs, exited := Some (Killed sg')\<rparr>)"
proof -
  define h where "h = (setupSignalHandlers h0)\<lparr>proxy := p, files := fs\<rparr>"
  have hh: "handlers h = [SIGINT, SIGTERM]" "exited h = None" "proxy h = p" "files h = fs"
      "cleanup_runs h = cleanup_runs h0"
    using unregistered live by (simp_all add: h_def setupSignalHandlers_def)
  have s0: "handlers (setupSignalHandlers h0) = [SIGINT, SIGTERM]"
    using unregistered by (simp add: setupSignalHandlers_def)
  have m: "main E = Some (Ran r hm) \<longrightarrow> handlers hm = [SIGINT, SIGTERM]"
    using main_registers_handlers [of E r hm] by blast
  obtain h' where h': "cleanup h = Inr h'"
      "process (proxy h) = None \<longrightarrow> proxy h' = proxy h"
      "\<forall>c. process (proxy h) = Some c \<longrightarrow>
           proxy h' = (proxy h)\<lparr>process := Some (c\<lparr>received := received c @ [SIGTERM]\<rparr>)\<rparr>"
      "\<forall>g. nodes (files h') g
           = (if g \<in> set artifacts \<and> deletable (files h) g then None else nodes (files h) g)"
      "cleanup_runs h' = Suc (cleanup_runs h)"
    using cleanup_result [of h] by (elim exE conjE) (rule that, assumption+)
  have d: "deliver (Signal sg) h = h'\<lparr>exited := Some (Code 0)\<rparr>"
    using hh sg by (auto simp: deliver_def cleanupAndExit_def h')
  have a: "deliver_all (Signal sg # evs) h = h'\<lparr>exited := Some (Code 0)\<rparr>"
    by (simp add: d deliver_all_exited)
  have pr: "process (proxy h')
             = map_option (\<lambda>c. c\<lparr>received := received c @ [SIGTERM]\<rparr>) (process p)"
    using h'(2,3) hh(3) by (cases "process p") auto
  have art: "set artifacts = {''xray.zip'', ''config.json'', ''vless_xray_links.txt''}"
    by (simp add: artifacts_def)
  have n: "\<forall>g. nodes (files h') g
           = (if g \<in> {''xray.zip'', ''config.json'', ''vless_xray_links.txt''} \<and> deletable fs g
              then None else nodes fs g)"
    using h'(4) unfolding art hh(4) .
  have b: "deliver_all (Drained # evs) h = h\<lparr>exited := Some (Code 0)\<rparr>"
    using hh by (simp add: deliver_def deliver_all_exited)
  have c: "sg' \<noteq> SIGINT \<and> sg' \<noteq> SIGTERM \<longrightarrow>
             deliver_all (Signal sg' # evs) h = h\<lparr>exited := Some (Killed sg')\<rparr>"
    using hh by (simp add: deliver_def deliver_all_exited)
  have "handlers (setupSignalHandlers h0) = [SIGINT, SIGTERM]
     \<and> (main E = Some (Ran r hm) \<longrightarrow> handlers hm = [SIGINT, SIGTERM])
     \<and> exited (deliver_all (Signal sg # evs) h) = Some (Code 0)
     \<and> cleanup_runs (deliver_all (Signal sg # evs) h) = Suc (cleanup_runs h0)
     \<and> process (proxy (deliver_all (Signal sg # evs) h))
           = map_option (\<lambda>c. c\<lparr>received := received c @ [SIGTERM]\<rparr>) (process p)
     \<and> (\<forall>g. nodes (files (deliver_all (Signal sg # evs) h)) g
           = (if g \<in> {''xray.zip'', ''config.json'', ''vless_xray_links.txt''} \<and> deletable fs g
              then None else nodes fs g))
     \<and> deliver_all (Drained # evs) h = h\<lparr>exited := Some (Code 0)\<rparr>
     \<and> (sg' \<noteq> SIGINT \<and> sg' \<noteq> SIGTERM \<longrightarrow>
           deliver_all (Signal sg' # evs) h = h\<lparr>exited := Some (Killed sg')\<rparr>)"
    unfolding a using s0 m h'(5) hh(5) pr n b c by simp
  then show ?thesis unfolding h_def by simp
qed

theorem signal_runs_cleanup_once_witness:
  "(\<exists>hm. main panel_without_engine = Some (Ran Pending hm)
      \<and> handlers hm = [SIGINT, SIGTERM]
      \<and> exited (deliver_all [Signal SIGTERM, Signal SIGINT, Drained] hm) = Some (Code 0)
      \<and> cleanup_runs (deliver_all [Signal SIGTERM, Signal SIGINT, Drained] hm) = 1
      \<and> nodes (files (deliver_all [Signal SIGTERM, Signal SIGINT, Drained] hm)) ''xray.zip'' = None
      \<and> exited (deliver_all [Signal SIGHUP, Signal SIGINT, Drained] hm) = Some (Killed SIGHUP)
      \<and> cleanup_runs (deliver_all [Signal SIGHUP, Signal SIGINT, Drained] hm) = 0
      \<and> nodes (files (deliver_all [Signal SIGHUP, Signal SIGINT, Drained] hm)) ''xray.zip''
          = Some (File docs_archive 420))
   \<and> exited (deliver_all [Signal SIGINT, Signal SIGTERM, Drained] running_host) = Some (Code 0)
   \<and> cleanup_runs (deliver_all [Signal SIGINT, Signal SIGTERM, Drained] running_host) = 1
   \<and> map_option received
         (process (proxy (deliver_all [Signal SIGINT, Signal SIGTERM, Drained] running_host)))
       = Some [SIGTERM]
   \<and> nodes (files (deliver_all [Signal SIGINT, Signal SIGTERM, Drained] running_host))
         ''config.json'' = None
   \<and> nodes (files (deliver_all [Signal SIGINT, Signal SIGTERM, Drained] running_host))
         ''vless_xray_links.txt'' = None
   \<and> deliver_all [Drained, Signal SIGTERM, Drained] running_host
       = running_host\<lparr>exited := Some (Code 0)\<rparr>"
proof -
  let ?P = "XrayProxy (\<lambda>s. 0) ''9f0c5c64-3a0b-4d6e-8a43-0d6b1f0a7c11''
              ''/home/container'' [] ''example.com''
              ''1b4e28ba-2fa1-11d2-883f-0016d3cca427'' (Fin 25565) ''Panel''"
  let ?X = "\<lparr> proxy = ?P, files = fresh_fs, handlers = [], exited = None, cleanup_runs = 0 \<rparr>"
  let ?fs1 = "fresh_fs\<lparr>nodes := (nodes fresh_fs)(''xray.zip'' \<mapsto> File docs_archive 420)\<rparr>"
  let ?hm = "(setupSignalHandlers ?X)\<lparr>files := ?fs1\<rparr>"
  have run: "main panel_without_engine = Some (Ran Pending ?hm)"
    by (rule panel_without_engine_run)
  have eq: "(setupSignalHandlers ?X)\<lparr>proxy := ?P, files := ?fs1\<rparr> = ?hm"
    by (simp add: setupSignalHandlers_def)
  have x: "handlers ?X = []" "exited ?X = None" "cleanup_runs ?X = 0" by simp_all
  have t: "SIGTERM = SIGINT \<or> SIGTERM = SIGTERM" by simp
  have f: "deletable ?fs1 ''xray.zip''" "nodes ?fs1 ''xray.zip'' = Some (File docs_archive 420)"
    by (simp_all add: deletable_def fresh_fs_def)
  have z: "cleanup_runs ?hm = 0" "files ?hm = ?fs1"
    by (simp_all add: setupSignalHandlers_def)
  have A: "handlers ?hm = [SIGINT, SIGTERM]
      \<and> exited (deliver_all [Signal SIGTERM, Signal SIGINT, Drained] ?hm) = Some (Code 0)
      \<and> cleanup_runs (deliver_all [Signal SIGTERM, Signal SIGINT, Drained] ?hm) = 1
      \<and> nodes (files (deliver_all [Signal SIGTERM, Signal SIGINT, Drained] ?hm)) ''xray.zip'' = None
      \<and> exited (deliver_all [Signal SIGHUP, Signal SIGINT, Drained] ?hm) = Some (Killed SIGHUP)
      \<and> cleanup_runs (deliver_all [Signal SIGHUP, Signal SIGINT, Drained] ?hm) = 0
      \<and> nodes (files (deliver_all [Signal SIGHUP, Signal SIGINT, Drained] ?hm)) ''xray.zip''
          = Some (File docs_archive 420)"
    using signal_runs_cleanup_once
            [OF x(1) x(2) t, where E = panel_without_engine and r = Pending and hm = ?hm
               and evs = "[Signal SIGINT, Drained]" and p = ?P and fs = ?fs1 and sg' = SIGHUP]
          run f z
    unfolding eq by simp
  let ?Y = "running_host\<lparr>handlers := []\<rparr>"
  have y: "handlers ?Y = []" "exited ?Y = None" "cleanup_runs ?Y = 0"
    by (simp_all add: running_host_fields)
  have eq': "(setupSignalHandlers ?Y)\<lparr>proxy := proxy running_host, files := files running_host\<rparr>
               = running_host"
    by (simp add: running_host_def setupSignalHandlers_def)
  have i: "SIGINT = SIGINT \<or> SIGINT = SIGTERM" by simp
  have g: "deletable (files running_host) ''config.json''"
      "deletable (files running_host) ''vless_xray_links.txt''"
    by (simp_all add: deletable_def running_host_fields)
  have B: "exited (deliver_all [Signal SIGINT, Signal SIGTERM, Drained] running_host) = Some (Code 0)
   \<and> cleanup_runs (deliver_all [Signal SIGINT, Signal SIGTERM, Drained] running_host) = 1
   \<and> map_option received
         (process (proxy (deliver_all [Signal SIGINT, Signal SIGTERM, Drained] running_host)))
       = Some [SIGTERM]
   \<and> nodes (files (deliver_all [Signal SIGINT, Signal SIGTERM, Drained] running_host))
         ''config.json'' = None
   \<and> nodes (files (deliver_all [Signal SIGINT, Signal SIGTERM, Drained] running_host))
         ''vless_xray_links.txt'' = None
   \<and> deliver_all [Drained, Signal SIGTERM, Drained] running_host
       = running_host\<lparr>exited := Some (Code 0)\<rparr>"
    using signal_runs_cleanup_once
            [OF y(1) y(2) i, where E = panel_without_engine and r = Pending and hm = ?hm
               and evs = "[Signal SIGTERM, Drained]" and p = "proxy running_host"
               and fs = "files running_host" and sg' = SIGHUP]
          g y(3) running_host_fields(4)
    unfolding eq' by (auto simp: option.map_comp comp_def)
  from run A B show ?thesis by blast
qed

text \<open>
  C1, as the specification states it, fails on a normal exit of the host. The engine of
  \<open>running_host\<close> is running; when it ends by itself the event loop of the host drains
  and the host exits: \<open>cleanup\<close> has not run, the child has received no signal, and the
  configuration file and the subscription link are still on disk.
\<close>

theorem normal_exit_runs_no_cleanup_counterexample:
  "exited (deliver Drained running_host) = Some (Code 0)
   \<and> cleanup_runs (deliver Drained running_host) = 0
   \<and> map_option received (process (proxy (deliver Drained running_host))) = Some []
   \<and> nodes (files (deliver Drained running_host)) ''config.json''
       = Some (File (Raw ''{}'') 420)
   \<and> nodes (files (deliver Drained running_host)) ''vless_xray_links.txt''
       = Some (File (Raw ''dmxlc3M='') 420)"
  by (simp add: deliver_def running_host_fields)

end
